theory Spec2Isabelle
  imports Complex_Main
begin

section \<open>Numbers, errors and vector access\<close>

text \<open>
  The C++ type \<^verbatim>\<open>float\<close> is modelled by the real numbers: every arithmetic operation
  of the source is kept, in the order the source performs it, but rounding, overflow and
  NaN are not modelled there. The section on binary32 models the format itself, and the
  forward passes of \<^verbatim>\<open>LogisticRegression\<close> and \<^verbatim>\<open>MultiClassClassifier\<close> are written over it
  a second time, for the statements about the range of their outputs.

  \<^verbatim>\<open>size_t\<close> is modelled by \<open>nat\<close>. The products of shape integers that the constructor of
  \<^verbatim>\<open>TwoLayerMLP\<close> forms before it allocates anything wrap in 64-bit \<^verbatim>\<open>size_t\<close> and are
  taken modulo \<open>2 ^ 64\<close>. Every theorem about an object assumes its class invariant (the
  vectors have the sizes of the shape); then each index and each sum of sizes the source
  forms is bounded by the size of a vector that exists, and is written without wrap-around.

  \<^verbatim>\<open>std::invalid_argument\<close> and \<^verbatim>\<open>std::runtime_error\<close> carry the message of the
  \<^verbatim>\<open>throw\<close>. An access \<^verbatim>\<open>v[i]\<close> past the end of a vector and the dereference of an end
  iterator are undefined behaviour in C++; the model stops there with
  \<open>undefined_behaviour\<close>.
\<close>

type_synonym float = real

datatype error = invalid_argument string | runtime_error string | undefined_behaviour

type_synonym 'a result = "error + 'a"

definition rbind :: "'a result \<Rightarrow> ('a \<Rightarrow> 'b result) \<Rightarrow> 'b result" where
  "rbind r f = (case r of Inl e \<Rightarrow> Inl e | Inr v \<Rightarrow> f v)"

definition vec_get :: "'a list \<Rightarrow> nat \<Rightarrow> 'a result" where
  "vec_get v i = (if i < length v then Inr (v ! i) else Inl undefined_behaviour)"

definition vec_put :: "'a list \<Rightarrow> nat \<Rightarrow> 'a \<Rightarrow> 'a list result" where
  "vec_put v i x = (if i < length v then Inr (v[i := x]) else Inl undefined_behaviour)"

text \<open>The counting loop \<^verbatim>\<open>for (size_t i = i0; i < n; ++i) body\<close> over a loop state.\<close>

function for_loop :: "nat \<Rightarrow> nat \<Rightarrow> (nat \<Rightarrow> 's \<Rightarrow> 's result) \<Rightarrow> 's \<Rightarrow> 's result" where
  "for_loop i n body s =
     (if i < n
      then (case body i s of Inl e \<Rightarrow> Inl e | Inr s' \<Rightarrow> for_loop (Suc i) n body s')
      else Inr s)"
  by pat_completeness auto
termination
  by (relation "measure (\<lambda>(i, n, body, s). n - i)") auto

declare for_loop.simps [simp del]

section \<open>LinearRegression\<close>

record LinearRegression =
  lin_weights :: "float list"
  lin_bias :: float
  lin_input_size :: nat

definition LinearRegression_ctor :: "nat \<Rightarrow> LinearRegression" where
  "LinearRegression_ctor input_size =
     \<lparr>lin_weights = replicate input_size 0, lin_bias = 0, lin_input_size = input_size\<rparr>"

definition LinearRegression_forward :: "LinearRegression \<Rightarrow> float list \<Rightarrow> float list result" where
  "LinearRegression_forward m input =
     (if length input \<noteq> lin_input_size m then Inl (invalid_argument ''Input size mismatch'')
      else rbind
        (for_loop 0 (lin_input_size m)
           (\<lambda>i result. rbind (vec_get (lin_weights m) i) (\<lambda>w.
                         rbind (vec_get input i) (\<lambda>x. Inr (result + w * x))))
           (lin_bias m))
        (\<lambda>result. Inr [result]))"

text \<open>
  A \<^verbatim>\<open>void\<close> method that writes the object returns its status together with the object
  as the call leaves it. (After \<open>undefined_behaviour\<close> the reported object means nothing.)
\<close>

definition LinearRegression_set_parameters ::
  "LinearRegression \<Rightarrow> float list \<Rightarrow> unit result \<times> LinearRegression" where
  "LinearRegression_set_parameters m parameters =
     (if length parameters \<noteq> lin_input_size m + 1
      then (Inl (invalid_argument ''Parameter size mismatch''), m)
      else (case for_loop 0 (lin_input_size m)
                   (\<lambda>i w. rbind (vec_get parameters i) (\<lambda>p. vec_put w i p))
                   (lin_weights m) of
              Inl e \<Rightarrow> (Inl e, m)
            | Inr w \<Rightarrow>
                (case vec_get parameters (lin_input_size m) of
                   Inl e \<Rightarrow> (Inl e, m\<lparr>lin_weights := w\<rparr>)
                 | Inr b \<Rightarrow> (Inr (), m\<lparr>lin_weights := w, lin_bias := b\<rparr>))))"

definition LinearRegression_input_size :: "LinearRegression \<Rightarrow> nat" where
  "LinearRegression_input_size m = lin_input_size m"

definition LinearRegression_output_size :: "LinearRegression \<Rightarrow> nat" where
  "LinearRegression_output_size m = 1"

text \<open>The class invariant: the weight vector has one entry per input.\<close>

definition LinearRegression_wf :: "LinearRegression \<Rightarrow> bool" where
  "LinearRegression_wf m = (length (lin_weights m) = lin_input_size m)"

section \<open>LogisticRegression\<close>

record LogisticRegression =
  log_weights :: "float list"
  log_bias :: float
  log_input_size :: nat

definition LogisticRegression_ctor :: "nat \<Rightarrow> LogisticRegression" where
  "LogisticRegression_ctor input_size =
     \<lparr>log_weights = replicate input_size 0, log_bias = 0, log_input_size = input_size\<rparr>"

definition LogisticRegression_forward ::
  "LogisticRegression \<Rightarrow> float list \<Rightarrow> float list result" where
  "LogisticRegression_forward m input =
     (if length input \<noteq> log_input_size m then Inl (invalid_argument ''Input size mismatch'')
      else rbind
        (for_loop 0 (log_input_size m)
           (\<lambda>i linear_output. rbind (vec_get (log_weights m) i) (\<lambda>w.
                                rbind (vec_get input i) (\<lambda>x. Inr (linear_output + w * x))))
           (log_bias m))
        (\<lambda>linear_output. Inr [1 / (1 + exp (- linear_output))]))"


definition LogisticRegression_input_size :: "LogisticRegression \<Rightarrow> nat" where
  "LogisticRegression_input_size m = log_input_size m"

definition LogisticRegression_output_size :: "LogisticRegression \<Rightarrow> nat" where
  "LogisticRegression_output_size m = 1"

definition LogisticRegression_wf :: "LogisticRegression \<Rightarrow> bool" where
  "LogisticRegression_wf m = (length (log_weights m) = log_input_size m)"

section \<open>MultiClassClassifier\<close>

record MultiClassClassifier =
  mc_weights :: "float list list"
  mc_biases :: "float list"
  mc_input_size :: nat
  mc_num_classes :: nat

definition MultiClassClassifier_ctor :: "nat \<Rightarrow> nat \<Rightarrow> MultiClassClassifier" where
  "MultiClassClassifier_ctor input_size num_classes =
     \<lparr>mc_weights = replicate num_classes (replicate input_size 0),
      mc_biases = replicate num_classes 0,
      mc_input_size = input_size, mc_num_classes = num_classes\<rparr>"

text \<open>
  \<^verbatim>\<open>*std::max_element(v.begin(), v.end())\<close>: on an empty vector \<^verbatim>\<open>max_element\<close> returns
  the end iterator, and dereferencing it is undefined behaviour.
\<close>

definition max_element :: "float list \<Rightarrow> float result" where
  "max_element v = (case v of [] \<Rightarrow> Inl undefined_behaviour | x # xs \<Rightarrow> Inr (foldl max x xs))"

text \<open>The first loop nest of \<^verbatim>\<open>MultiClassClassifier::forward\<close>: the logits.\<close>

definition MultiClassClassifier_logits ::
  "MultiClassClassifier \<Rightarrow> float list \<Rightarrow> float list result" where
  "MultiClassClassifier_logits m input =
     for_loop 0 (mc_num_classes m)
       (\<lambda>c logits.
          rbind (vec_get (mc_biases m) c) (\<lambda>b.
          rbind (vec_put logits c b) (\<lambda>logits.
          for_loop 0 (mc_input_size m)
            (\<lambda>i logits.
               rbind (rbind (vec_get (mc_weights m) c) (\<lambda>row. vec_get row i)) (\<lambda>w.
               rbind (vec_get input i) (\<lambda>x.
               rbind (vec_get logits c) (\<lambda>l. vec_put logits c (l + w * x)))))
            logits)))
       (replicate (mc_num_classes m) 0)"

text \<open>The rest of \<^verbatim>\<open>forward\<close>: the maximum, the exponentials and their sum, the division.\<close>

definition MultiClassClassifier_softmax :: "nat \<Rightarrow> float list \<Rightarrow> float list result" where
  "MultiClassClassifier_softmax num_classes logits =
     rbind (max_element logits) (\<lambda>max_logit.
     rbind (for_loop 0 num_classes
              (\<lambda>c (probabilities, sum_exp).
                 rbind (vec_get logits c) (\<lambda>l.
                 rbind (vec_put probabilities c (exp (l - max_logit))) (\<lambda>probabilities.
                 rbind (vec_get probabilities c) (\<lambda>p. Inr (probabilities, sum_exp + p)))))
              (replicate num_classes 0, 0)) (\<lambda>(probabilities, sum_exp).
     for_loop 0 num_classes
       (\<lambda>c probabilities.
          rbind (vec_get probabilities c) (\<lambda>p. vec_put probabilities c (p / sum_exp)))
       probabilities))"

definition MultiClassClassifier_forward ::
  "MultiClassClassifier \<Rightarrow> float list \<Rightarrow> float list result" where
  "MultiClassClassifier_forward m input =
     (if length input \<noteq> mc_input_size m then Inl (invalid_argument ''Input size mismatch'')
      else rbind (MultiClassClassifier_logits m input)
                 (MultiClassClassifier_softmax (mc_num_classes m)))"

text \<open>
  The loop \<^verbatim>\<open>for (i = 0; i < n; ++i) v[i] = parameters[idx++]\<close>, on the pair of the
  vector written and the running index.
\<close>

definition copy_params :: "nat \<Rightarrow> float list \<Rightarrow> float list \<times> nat \<Rightarrow> (float list \<times> nat) result" where
  "copy_params n parameters =
     for_loop 0 n
       (\<lambda>i (v, idx). rbind (vec_get parameters idx) (\<lambda>p.
                      rbind (vec_put v i p) (\<lambda>v. Inr (v, idx + 1))))"

definition MultiClassClassifier_set_parameters ::
  "MultiClassClassifier \<Rightarrow> float list \<Rightarrow> unit result \<times> MultiClassClassifier" where
  "MultiClassClassifier_set_parameters m parameters =
     (let expected_size = mc_num_classes m * mc_input_size m + mc_num_classes m in
      if length parameters \<noteq> expected_size
      then (Inl (invalid_argument ''Parameter size mismatch''), m)
      else (case for_loop 0 (mc_num_classes m)
                   (\<lambda>c. for_loop 0 (mc_input_size m)
                      (\<lambda>i (weights, param_idx).
                         rbind (vec_get parameters param_idx) (\<lambda>p.
                         rbind (vec_get weights c) (\<lambda>row.
                         rbind (vec_put row i p) (\<lambda>row.
                         rbind (vec_put weights c row) (\<lambda>weights.
                         Inr (weights, param_idx + 1)))))))
                   (mc_weights m, 0) of
              Inl e \<Rightarrow> (Inl e, m)
            | Inr (weights, param_idx) \<Rightarrow>
                (case copy_params (mc_num_classes m) parameters (mc_biases m, param_idx) of
                   Inl e \<Rightarrow> (Inl e, m\<lparr>mc_weights := weights\<rparr>)
                 | Inr (biases, param_idx) \<Rightarrow>
                     (Inr (), m\<lparr>mc_weights := weights, mc_biases := biases\<rparr>))))"

definition MultiClassClassifier_input_size :: "MultiClassClassifier \<Rightarrow> nat" where
  "MultiClassClassifier_input_size m = mc_input_size m"

definition MultiClassClassifier_output_size :: "MultiClassClassifier \<Rightarrow> nat" where
  "MultiClassClassifier_output_size m = mc_num_classes m"

text \<open>The class invariant: \<open>num_classes\<close> rows of \<open>input_size\<close> weights, \<open>num_classes\<close> biases.\<close>

definition MultiClassClassifier_wf :: "MultiClassClassifier \<Rightarrow> bool" where
  "MultiClassClassifier_wf m =
     (length (mc_weights m) = mc_num_classes m
      \<and> list_all (\<lambda>row. length row = mc_input_size m) (mc_weights m)
      \<and> length (mc_biases m) = mc_num_classes m)"

section \<open>TwoLayerMLP\<close>

record TwoLayerMLP =
  mlp_W1 :: "float list"
  mlp_b1 :: "float list"
  mlp_W2 :: "float list"
  mlp_b2 :: "float list"
  mlp_input_size :: nat
  mlp_hidden_size :: nat
  mlp_output_size :: nat

definition TwoLayerMLP_ctor :: "nat \<Rightarrow> nat \<Rightarrow> nat \<Rightarrow> TwoLayerMLP" where
  "TwoLayerMLP_ctor input_size hidden_size output_size =
     \<lparr>mlp_W1 = replicate ((input_size * hidden_size) mod 2 ^ 64) 0,
      mlp_b1 = replicate hidden_size 0,
      mlp_W2 = replicate ((hidden_size * output_size) mod 2 ^ 64) 0,
      mlp_b2 = replicate output_size 0,
      mlp_input_size = input_size, mlp_hidden_size = hidden_size,
      mlp_output_size = output_size\<rparr>"

text \<open>The hidden layer of \<^verbatim>\<open>TwoLayerMLP::forward\<close>, with its ReLU.\<close>

definition TwoLayerMLP_hidden :: "TwoLayerMLP \<Rightarrow> float list \<Rightarrow> float list result" where
  "TwoLayerMLP_hidden m input =
     for_loop 0 (mlp_hidden_size m)
       (\<lambda>h hidden.
          rbind (vec_get (mlp_b1 m) h) (\<lambda>b.
          rbind (vec_put hidden h b) (\<lambda>hidden.
          rbind (for_loop 0 (mlp_input_size m)
                   (\<lambda>i hidden.
                      rbind (vec_get (mlp_W1 m) (i * mlp_hidden_size m + h)) (\<lambda>w.
                      rbind (vec_get input i) (\<lambda>x.
                      rbind (vec_get hidden h) (\<lambda>v. vec_put hidden h (v + w * x)))))
                   hidden) (\<lambda>hidden.
          rbind (vec_get hidden h) (\<lambda>v. vec_put hidden h (max 0 v))))))
       (replicate (mlp_hidden_size m) 0)"

text \<open>The output layer of \<^verbatim>\<open>TwoLayerMLP::forward\<close>.\<close>

definition TwoLayerMLP_output :: "TwoLayerMLP \<Rightarrow> float list \<Rightarrow> float list result" where
  "TwoLayerMLP_output m hidden =
     for_loop 0 (mlp_output_size m)
       (\<lambda>oi output.
          rbind (vec_get (mlp_b2 m) oi) (\<lambda>b.
          rbind (vec_put output oi b) (\<lambda>output.
          for_loop 0 (mlp_hidden_size m)
            (\<lambda>h output.
               rbind (vec_get (mlp_W2 m) (h * mlp_output_size m + oi)) (\<lambda>w.
               rbind (vec_get hidden h) (\<lambda>x.
               rbind (vec_get output oi) (\<lambda>v. vec_put output oi (v + w * x)))))
            output)))
       (replicate (mlp_output_size m) 0)"

definition TwoLayerMLP_forward :: "TwoLayerMLP \<Rightarrow> float list \<Rightarrow> float list result" where
  "TwoLayerMLP_forward m input =
     (if length input \<noteq> mlp_input_size m then Inl (invalid_argument ''Input size mismatch'')
      else rbind (TwoLayerMLP_hidden m input) (TwoLayerMLP_output m))"


definition TwoLayerMLP_input_size :: "TwoLayerMLP \<Rightarrow> nat" where
  "TwoLayerMLP_input_size m = mlp_input_size m"

definition TwoLayerMLP_output_size :: "TwoLayerMLP \<Rightarrow> nat" where
  "TwoLayerMLP_output_size m = mlp_output_size m"

text \<open>The class invariant: the four vectors have the sizes the constructor gave them.\<close>

definition TwoLayerMLP_wf :: "TwoLayerMLP \<Rightarrow> bool" where
  "TwoLayerMLP_wf m =
     (length (mlp_W1 m) = mlp_input_size m * mlp_hidden_size m
      \<and> length (mlp_b1 m) = mlp_hidden_size m
      \<and> length (mlp_W2 m) = mlp_hidden_size m * mlp_output_size m
      \<and> length (mlp_b2 m) = mlp_output_size m)"

section \<open>The NeuralNetwork interface and the ModelRegistry\<close>

text \<open>
  The abstract class \<^verbatim>\<open>NeuralNetwork\<close> with its four implementations; a virtual call
  dispatches on the variant.
\<close>

datatype NeuralNetwork =
    Linear LinearRegression
  | Logistic LogisticRegression
  | MultiClass MultiClassClassifier
  | MLP TwoLayerMLP

text \<open>
  The three overloads of \<^verbatim>\<open>ModelRegistry::create_model\<close>, for one, two and three shape
  integers. C++ chooses the overload by the number of arguments.
\<close>

definition create_model1 :: "string \<Rightarrow> nat \<Rightarrow> NeuralNetwork result" where
  "create_model1 type_name input_size =
     (if type_name = ''linear'' then Inr (Linear (LinearRegression_ctor input_size))
      else if type_name = ''logistic'' then Inr (Logistic (LogisticRegression_ctor input_size))
      else Inl (invalid_argument (''Unknown single-parameter model type: '' @ type_name)))"

definition create_model2 :: "string \<Rightarrow> nat \<Rightarrow> nat \<Rightarrow> NeuralNetwork result" where
  "create_model2 type_name input_size param2 =
     (if type_name = ''multiclass''
      then Inr (MultiClass (MultiClassClassifier_ctor input_size param2))
      else Inl (invalid_argument (''Unknown two-parameter model type: '' @ type_name)))"

definition create_model3 :: "string \<Rightarrow> nat \<Rightarrow> nat \<Rightarrow> nat \<Rightarrow> NeuralNetwork result" where
  "create_model3 type_name input_size hidden_size output_size =
     (if type_name = ''mlp''
      then Inr (MLP (TwoLayerMLP_ctor input_size hidden_size output_size))
      else Inl (invalid_argument (''Unknown three-parameter model type: '' @ type_name)))"

definition is_registered :: "string \<Rightarrow> bool" where
  "is_registered type_name =
     (type_name = ''linear'' \<or> type_name = ''logistic''
      \<or> type_name = ''multiclass'' \<or> type_name = ''mlp'')"

definition get_registered_types :: "string list" where
  "get_registered_types = [''linear'', ''logistic'', ''multiclass'', ''mlp'']"

fun forward :: "NeuralNetwork \<Rightarrow> float list \<Rightarrow> float list result" where
  "forward (Linear m) input = LinearRegression_forward m input"
| "forward (Logistic m) input = LogisticRegression_forward m input"
| "forward (MultiClass m) input = MultiClassClassifier_forward m input"
| "forward (MLP m) input = TwoLayerMLP_forward m input"


fun input_size :: "NeuralNetwork \<Rightarrow> nat" where
  "input_size (Linear m) = LinearRegression_input_size m"
| "input_size (Logistic m) = LogisticRegression_input_size m"
| "input_size (MultiClass m) = MultiClassClassifier_input_size m"
| "input_size (MLP m) = TwoLayerMLP_input_size m"

fun output_size :: "NeuralNetwork \<Rightarrow> nat" where
  "output_size (Linear m) = LinearRegression_output_size m"
| "output_size (Logistic m) = LogisticRegression_output_size m"
| "output_size (MultiClass m) = MultiClassClassifier_output_size m"
| "output_size (MLP m) = TwoLayerMLP_output_size m"

fun wf :: "NeuralNetwork \<Rightarrow> bool" where
  "wf (Linear m) = LinearRegression_wf m"
| "wf (Logistic m) = LogisticRegression_wf m"
| "wf (MultiClass m) = MultiClassClassifier_wf m"
| "wf (MLP m) = TwoLayerMLP_wf m"


text \<open>
  The softmax of the spec's glossary: exponentiation followed by normalisation by the sum.
\<close>

definition softmax :: "float list \<Rightarrow> float list" where
  "softmax z = map (\<lambda>v. exp v / sum_list (map exp z)) z"



text \<open>
  The flat parameter sequence of the spec's data model, read back from the object in the
  order of the variant's layout.
\<close>

fun parameters :: "NeuralNetwork \<Rightarrow> float list" where
  "parameters (Linear m) = lin_weights m @ [lin_bias m]"
| "parameters (Logistic m) = log_weights m @ [log_bias m]"
| "parameters (MultiClass m) = concat (mc_weights m) @ mc_biases m"
| "parameters (MLP m) = mlp_W1 m @ mlp_b1 m @ mlp_W2 m @ mlp_b2 m"

section \<open>TestDataLoader\<close>

record TestCase =
  tc_input :: "float list"
  tc_expected_output :: "float list"
  tc_description :: string

text \<open>The characters of \<^verbatim>\<open>" \t\r\n"\<close>.\<close>

definition is_blank :: "char \<Rightarrow> bool" where
  "is_blank c = (c = CHR '' '' \<or> c = CHR 0x09 \<or> c = CHR 0x0D \<or> c = CHR 0x0A)"

text \<open>\<^verbatim>\<open>str.find(pat)\<close>: the first position where \<open>pat\<close> occurs, \<open>None\<close> for \<^verbatim>\<open>npos\<close>.\<close>

fun find_from :: "string \<Rightarrow> nat \<Rightarrow> string \<Rightarrow> nat option" where
  "find_from pat i [] = (if pat = [] then Some i else None)"
| "find_from pat i (c # cs) =
     (if take (length pat) (c # cs) = pat then Some i else find_from pat (Suc i) cs)"

definition find_str :: "string \<Rightarrow> string \<Rightarrow> nat option" where
  "find_str str pat = find_from pat 0 str"

definition find_first_not_of_blank :: "string \<Rightarrow> nat option" where
  "find_first_not_of_blank str =
     (if list_all is_blank str then None else Some (length (takeWhile is_blank str)))"

definition find_last_not_of_blank :: "string \<Rightarrow> nat option" where
  "find_last_not_of_blank str =
     (if list_all is_blank str then None
      else Some (length str - 1 - length (takeWhile is_blank (rev str))))"

text \<open>\<^verbatim>\<open>str.substr(pos, len)\<close> for \<open>pos \<le> length str\<close>, which is all the loader uses.\<close>

definition substr :: "string \<Rightarrow> nat \<Rightarrow> nat \<Rightarrow> string" where
  "substr str pos len = take len (drop pos str)"

definition trim :: "string \<Rightarrow> string" where
  "trim str =
     (case find_first_not_of_blank str of
        None \<Rightarrow> []
      | Some start \<Rightarrow>
          (case find_last_not_of_blank str of
             None \<Rightarrow> []
           | Some end \<Rightarrow> substr str start (end - start + 1)))"

text \<open>
  The tokens that \<^verbatim>\<open>while (std::getline(ss, token, delim))\<close> yields on a string: the
  pieces between delimiters, without an empty piece after the last delimiter.
\<close>

fun getline_tokens :: "char \<Rightarrow> string \<Rightarrow> string \<Rightarrow> string list" where
  "getline_tokens delim acc [] = (if acc = [] then [] else [rev acc])"
| "getline_tokens delim acc (c # cs) =
     (if c = delim then rev acc # getline_tokens delim [] cs
      else getline_tokens delim (c # acc) cs)"

text \<open>
  \<^verbatim>\<open>std::stof\<close> belongs to the standard library, not to the repository: the loader takes
  it as the parameter \<open>stof\<close>, which returns the value or the exception thrown.
\<close>

fun parse_tokens :: "(string \<Rightarrow> float result) \<Rightarrow> string list \<Rightarrow> float list result" where
  "parse_tokens stof [] = Inr []"
| "parse_tokens stof (token # rest) =
     (let token = trim token in
      if token \<noteq> []
      then rbind (stof token) (\<lambda>v. rbind (parse_tokens stof rest) (\<lambda>values. Inr (v # values)))
      else parse_tokens stof rest)"

definition parse_float_list :: "(string \<Rightarrow> float result) \<Rightarrow> string \<Rightarrow> float list result" where
  "parse_float_list stof str = parse_tokens stof (getline_tokens CHR '','' [] str)"

text \<open>\<^verbatim>\<open>std::to_string\<close> of a line number.\<close>

fun to_string :: "nat \<Rightarrow> string" where
  "to_string n =
     (if n < 10 then [''0123456789'' ! n]
      else to_string (n div 10) @ [''0123456789'' ! (n mod 10)])"

declare to_string.simps [simp del]

definition parse_line :: "(string \<Rightarrow> float result) \<Rightarrow> string \<Rightarrow> nat \<Rightarrow> TestCase result" where
  "parse_line stof line line_number =
     (case find_str line ''->'' of
        None \<Rightarrow> Inl (runtime_error ''Missing '->' separator'')
      | Some arrow_pos \<Rightarrow>
          rbind (parse_float_list stof (trim (substr line 0 arrow_pos))) (\<lambda>inputs.
          rbind (parse_float_list stof (trim (drop (arrow_pos + 2) line))) (\<lambda>outputs.
          Inr \<lparr>tc_input = inputs, tc_expected_output = outputs,
               tc_description = ''Line '' @ to_string line_number\<rparr>)))"

text \<open>
  The loop of \<^verbatim>\<open>load_from_file\<close> over the lines that \<^verbatim>\<open>std::getline(file, line)\<close> yields,
  from the line number reached so far. It returns the test cases in the order they were
  pushed, and the errors written to \<^verbatim>\<open>std::cerr\<close> as pairs of line number and exception.
\<close>

fun load_lines ::
  "(string \<Rightarrow> float result) \<Rightarrow> nat \<Rightarrow> string list \<Rightarrow> TestCase list \<times> (nat \<times> error) list" where
  "load_lines stof line_number [] = ([], [])"
| "load_lines stof line_number (line # rest) =
     (let line_number = line_number + 1;
          (test_cases, reported) = load_lines stof line_number rest
      in if line = [] \<or> hd line = CHR ''#'' then (test_cases, reported)
         else (case parse_line stof line line_number of
                 Inr test_case \<Rightarrow> (test_case # test_cases, reported)
               | Inl e \<Rightarrow> (test_cases, (line_number, e) # reported)))"

text \<open>
  \<^verbatim>\<open>load_from_file\<close> on a file given by its lines, \<open>None\<close> for a file that cannot be
  opened (a warning is printed and no test case is returned).
\<close>

definition load_from_file ::
  "(string \<Rightarrow> float result) \<Rightarrow> string list option \<Rightarrow> TestCase list \<times> (nat \<times> error) list" where
  "load_from_file stof file =
     (case file of None \<Rightarrow> ([], []) | Some lines \<Rightarrow> load_lines stof 0 lines)"

text \<open>
  A stand-in for \<^verbatim>\<open>std::stof\<close> on plain decimal literals (sign, digits, fraction), to run
  the loader on concrete lines.
\<close>

definition is_digit :: "char \<Rightarrow> bool" where
  "is_digit c = (48 \<le> (of_char c :: nat) \<and> (of_char c :: nat) \<le> 57)"

definition digits_value :: "string \<Rightarrow> nat" where
  "digits_value ds = foldl (\<lambda>v c. 10 * v + (of_char c - 48)) 0 ds"

definition decimal_stof :: "string \<Rightarrow> float result" where
  "decimal_stof s =
     (let negative = (s \<noteq> [] \<and> hd s = CHR ''-'');
          r = (if s \<noteq> [] \<and> (hd s = CHR ''-'' \<or> hd s = CHR ''+'') then tl s else s);
          int_part = takeWhile is_digit r;
          r = dropWhile is_digit r;
          frac_part = (if r \<noteq> [] \<and> hd r = CHR ''.'' then takeWhile is_digit (tl r) else [])
      in if int_part = [] \<and> frac_part = [] then Inl (invalid_argument ''stof'')
         else (let v = real (digits_value int_part)
                       + real (digits_value frac_part) / 10 ^ length frac_part
               in Inr (if negative then - v else v)))"

section \<open>binary32\<close>

text \<open>
  The IEEE-754 single format that \<^verbatim>\<open>float\<close> is on the platforms the project builds for:
  a finite value (a real number), an infinity or NaN. Every operation computes the exact
  result and rounds it to the nearest value of the format, ties to even: 24 significant
  bits, the least exponent \<open>- 126\<close> (below it the spacing stays \<open>2 ^ - 149\<close>), and a result
  whose magnitude reaches \<open>2 ^ 128 - 2 ^ 103\<close> becomes an infinity. The sign of a zero is not
  modelled.
\<close>

datatype binary32 = Finite real | PlusInf | MinusInf | NaN

definition round_to_even :: "real \<Rightarrow> int" where
  "round_to_even r =
     (let f = \<lfloor>r\<rfloor> in
      if r - of_int f < 1 / 2 then f
      else if 1 / 2 < r - of_int f then f + 1
      else if even f then f else f + 1)"

definition binary32_exponent :: "real \<Rightarrow> int" where
  "binary32_exponent x = max (- 126) \<lfloor>log 2 \<bar>x\<bar>\<rfloor>"

definition binary32_quantum :: "real \<Rightarrow> real" where
  "binary32_quantum x = 2 powi (binary32_exponent x - 23)"

definition round_binary32 :: "real \<Rightarrow> real" where
  "round_binary32 x =
     (if x = 0 then 0
      else of_int (round_to_even (x / binary32_quantum x)) * binary32_quantum x)"

definition to_binary32 :: "real \<Rightarrow> binary32" where
  "to_binary32 x =
     (if 2 ^ 128 - 2 ^ 103 \<le> \<bar>x\<bar> then (if 0 < x then PlusInf else MinusInf)
      else Finite (round_binary32 x))"


text \<open>
  The operations on binary32 values. An infinite operand follows IEEE-754; \<open>std::exp\<close> is
  taken to return the correctly rounded exponential.
\<close>

fun is_finite :: "binary32 \<Rightarrow> bool" where
  "is_finite (Finite x) = True"
| "is_finite PlusInf = False"
| "is_finite MinusInf = False"
| "is_finite NaN = False"

fun fneg :: "binary32 \<Rightarrow> binary32" where
  "fneg (Finite x) = Finite (- x)"
| "fneg PlusInf = MinusInf"
| "fneg MinusInf = PlusInf"
| "fneg NaN = NaN"

fun fadd :: "binary32 \<Rightarrow> binary32 \<Rightarrow> binary32" where
  "fadd (Finite x) (Finite y) = to_binary32 (x + y)"
| "fadd (Finite x) PlusInf = PlusInf"
| "fadd (Finite x) MinusInf = MinusInf"
| "fadd PlusInf (Finite y) = PlusInf"
| "fadd PlusInf PlusInf = PlusInf"
| "fadd PlusInf MinusInf = NaN"
| "fadd MinusInf (Finite y) = MinusInf"
| "fadd MinusInf PlusInf = NaN"
| "fadd MinusInf MinusInf = MinusInf"
| "fadd NaN b = NaN"
| "fadd (Finite x) NaN = NaN"
| "fadd PlusInf NaN = NaN"
| "fadd MinusInf NaN = NaN"

definition fsub :: "binary32 \<Rightarrow> binary32 \<Rightarrow> binary32" where
  "fsub a b = fadd a (fneg b)"

fun fmul :: "binary32 \<Rightarrow> binary32 \<Rightarrow> binary32" where
  "fmul (Finite x) (Finite y) = to_binary32 (x * y)"
| "fmul (Finite x) PlusInf = (if x = 0 then NaN else if 0 < x then PlusInf else MinusInf)"
| "fmul (Finite x) MinusInf = (if x = 0 then NaN else if 0 < x then MinusInf else PlusInf)"
| "fmul PlusInf (Finite y) = (if y = 0 then NaN else if 0 < y then PlusInf else MinusInf)"
| "fmul PlusInf PlusInf = PlusInf"
| "fmul PlusInf MinusInf = MinusInf"
| "fmul MinusInf (Finite y) = (if y = 0 then NaN else if 0 < y then MinusInf else PlusInf)"
| "fmul MinusInf PlusInf = MinusInf"
| "fmul MinusInf MinusInf = PlusInf"
| "fmul NaN b = NaN"
| "fmul (Finite x) NaN = NaN"
| "fmul PlusInf NaN = NaN"
| "fmul MinusInf NaN = NaN"

fun fdiv :: "binary32 \<Rightarrow> binary32 \<Rightarrow> binary32" where
  "fdiv (Finite x) (Finite y) =
     (if y = 0 then (if x = 0 then NaN else if 0 < x then PlusInf else MinusInf)
      else to_binary32 (x / y))"
| "fdiv (Finite x) PlusInf = Finite 0"
| "fdiv (Finite x) MinusInf = Finite 0"
| "fdiv PlusInf (Finite y) = (if 0 \<le> y then PlusInf else MinusInf)"
| "fdiv PlusInf PlusInf = NaN"
| "fdiv PlusInf MinusInf = NaN"
| "fdiv MinusInf (Finite y) = (if 0 \<le> y then MinusInf else PlusInf)"
| "fdiv MinusInf PlusInf = NaN"
| "fdiv MinusInf MinusInf = NaN"
| "fdiv NaN b = NaN"
| "fdiv (Finite x) NaN = NaN"
| "fdiv PlusInf NaN = NaN"
| "fdiv MinusInf NaN = NaN"

fun fexp :: "binary32 \<Rightarrow> binary32" where
  "fexp (Finite x) = to_binary32 (exp x)"
| "fexp PlusInf = PlusInf"
| "fexp MinusInf = Finite 0"
| "fexp NaN = NaN"

text \<open>\<^verbatim>\<open>a < b\<close> on floats: false as soon as an operand is NaN.\<close>

fun fless :: "binary32 \<Rightarrow> binary32 \<Rightarrow> bool" where
  "fless (Finite x) (Finite y) = (x < y)"
| "fless (Finite x) PlusInf = True"
| "fless MinusInf (Finite y) = True"
| "fless MinusInf PlusInf = True"
| "fless a b = False"

subsection \<open>LogisticRegression::forward in binary32\<close>

record LogisticRegression_binary32 =
  log32_weights :: "binary32 list"
  log32_bias :: binary32
  log32_input_size :: nat

text \<open>The loop of \<^verbatim>\<open>forward\<close>: the linear pre-activation.\<close>

definition LogisticRegression_binary32_linear_output ::
  "LogisticRegression_binary32 \<Rightarrow> binary32 list \<Rightarrow> binary32 result" where
  "LogisticRegression_binary32_linear_output m input =
     for_loop 0 (log32_input_size m)
       (\<lambda>i linear_output. rbind (vec_get (log32_weights m) i) (\<lambda>w.
                            rbind (vec_get input i) (\<lambda>x. Inr (fadd linear_output (fmul w x)))))
       (log32_bias m)"

definition LogisticRegression_binary32_forward ::
  "LogisticRegression_binary32 \<Rightarrow> binary32 list \<Rightarrow> binary32 list result" where
  "LogisticRegression_binary32_forward m input =
     (if length input \<noteq> log32_input_size m then Inl (invalid_argument ''Input size mismatch'')
      else rbind (LogisticRegression_binary32_linear_output m input)
        (\<lambda>linear_output.
           Inr [fdiv (Finite 1) (fadd (Finite 1) (fexp (fneg linear_output)))]))"

definition LogisticRegression_binary32_wf :: "LogisticRegression_binary32 \<Rightarrow> bool" where
  "LogisticRegression_binary32_wf m = (length (log32_weights m) = log32_input_size m)"

subsection \<open>MultiClassClassifier::forward in binary32\<close>

record MultiClassClassifier_binary32 =
  mc32_weights :: "binary32 list list"
  mc32_biases :: "binary32 list"
  mc32_input_size :: nat
  mc32_num_classes :: nat

text \<open>
  \<^verbatim>\<open>*std::max_element(v.begin(), v.end())\<close> keeps the first element that no later one
  exceeds under \<^verbatim>\<open><\<close>.
\<close>

definition max_element_binary32 :: "binary32 list \<Rightarrow> binary32 result" where
  "max_element_binary32 v =
     (case v of
        [] \<Rightarrow> Inl undefined_behaviour
      | x # xs \<Rightarrow> Inr (foldl (\<lambda>largest y. if fless largest y then y else largest) x xs))"

definition MultiClassClassifier_binary32_logits ::
  "MultiClassClassifier_binary32 \<Rightarrow> binary32 list \<Rightarrow> binary32 list result" where
  "MultiClassClassifier_binary32_logits m input =
     for_loop 0 (mc32_num_classes m)
       (\<lambda>c logits.
          rbind (vec_get (mc32_biases m) c) (\<lambda>b.
          rbind (vec_put logits c b) (\<lambda>logits.
          for_loop 0 (mc32_input_size m)
            (\<lambda>i logits.
               rbind (rbind (vec_get (mc32_weights m) c) (\<lambda>row. vec_get row i)) (\<lambda>w.
               rbind (vec_get input i) (\<lambda>x.
               rbind (vec_get logits c) (\<lambda>l. vec_put logits c (fadd l (fmul w x))))))
            logits)))
       (replicate (mc32_num_classes m) (Finite 0))"

definition MultiClassClassifier_binary32_softmax ::
  "nat \<Rightarrow> binary32 list \<Rightarrow> binary32 list result" where
  "MultiClassClassifier_binary32_softmax num_classes logits =
     rbind (max_element_binary32 logits) (\<lambda>max_logit.
     rbind (for_loop 0 num_classes
              (\<lambda>c (probabilities, sum_exp).
                 rbind (vec_get logits c) (\<lambda>l.
                 rbind (vec_put probabilities c (fexp (fsub l max_logit))) (\<lambda>probabilities.
                 rbind (vec_get probabilities c) (\<lambda>p. Inr (probabilities, fadd sum_exp p)))))
              (replicate num_classes (Finite 0), Finite 0)) (\<lambda>(probabilities, sum_exp).
     for_loop 0 num_classes
       (\<lambda>c probabilities.
          rbind (vec_get probabilities c) (\<lambda>p. vec_put probabilities c (fdiv p sum_exp)))
       probabilities))"

definition MultiClassClassifier_binary32_forward ::
  "MultiClassClassifier_binary32 \<Rightarrow> binary32 list \<Rightarrow> binary32 list result" where
  "MultiClassClassifier_binary32_forward m input =
     (if length input \<noteq> mc32_input_size m then Inl (invalid_argument ''Input size mismatch'')
      else rbind (MultiClassClassifier_binary32_logits m input)
                 (MultiClassClassifier_binary32_softmax (mc32_num_classes m)))"

section \<open>Loop rules\<close>

lemma rbind_Inr [simp]: "rbind (Inr v) f = f v"
  by (simp add: rbind_def)

lemma rbind_Inl [simp]: "rbind (Inl e) f = Inl e"
  by (simp add: rbind_def)

lemma vec_get_in [simp]: "i < length v \<Longrightarrow> vec_get v i = Inr (v ! i)"
  by (simp add: vec_get_def)

lemma vec_put_in [simp]: "i < length v \<Longrightarrow> vec_put v i x = Inr (v[i := x])"
  by (simp add: vec_put_def)

lemma for_loop_done [simp]: "\<not> i < n \<Longrightarrow> for_loop i n body s = Inr s"
  by (simp add: for_loop.simps)

lemma for_loop_step:
  "i < n \<Longrightarrow> body i s = Inr s' \<Longrightarrow> for_loop i n body s = for_loop (Suc i) n body s'"
  by (subst for_loop.simps) simp

text \<open>
  The invariant rule: if \<open>P i s\<close> holds on entry and every iteration \<open>j\<close> started in a
  state with \<open>P j\<close> returns normally in a state with \<open>P (j + 1)\<close>, the loop returns
  normally in a state with \<open>P n\<close>.
\<close>

lemma for_loop_rule:
  assumes "P i s" and "i \<le> n"
    and "\<And>j t. i \<le> j \<Longrightarrow> j < n \<Longrightarrow> P j t \<Longrightarrow> \<exists>t'. body j t = Inr t' \<and> P (Suc j) t'"
  shows "\<exists>t. for_loop i n body s = Inr t \<and> P n t"
  using assms
proof (induction "n - i" arbitrary: i s)
  case 0
  then have "i = n" by simp
  with "0.prems"(1) show ?case by simp
next
  case (Suc d)
  then have lt: "i < n" by simp
  from Suc.prems(3) [OF le_refl lt Suc.prems(1)]
  obtain t' where t': "body i s = Inr t'" "P (Suc i) t'" by blast
  have "d = n - Suc i" using Suc.hyps(2) by simp
  moreover have "Suc i \<le> n" using lt by simp
  moreover have "\<And>j t. Suc i \<le> j \<Longrightarrow> j < n \<Longrightarrow> P j t
      \<Longrightarrow> \<exists>t'. body j t = Inr t' \<and> P (Suc j) t'"
    using Suc.prems(3) by simp
  ultimately obtain t where "for_loop (Suc i) n body t' = Inr t" "P n t"
    using Suc.hyps(1) [of "Suc i" t'] t'(2) by blast
  then show ?case using for_loop_step [of i n body s t'] lt t'(1) by simp
qed

lemma for_loop_eq:
  assumes "P i s" and "i \<le> n"
    and "\<And>j t. i \<le> j \<Longrightarrow> j < n \<Longrightarrow> P j t \<Longrightarrow> \<exists>t'. body j t = Inr t' \<and> P (Suc j) t'"
    and "\<And>t. P n t \<Longrightarrow> t = r"
  shows "for_loop i n body s = Inr r"
  using for_loop_rule [of P i s n body, OF assms(1,2,3)] assms(4) by blast

section \<open>LinearRegression: what the loops compute\<close>

lemma dot_loop:
  assumes "length w = n" and "length x = n"
  shows "for_loop 0 n
           (\<lambda>i result. rbind (vec_get w i) (\<lambda>wi. rbind (vec_get x i) (\<lambda>xi. Inr (result + wi * xi))))
           b
         = Inr (b + (\<Sum>i<n. w ! i * x ! i))"
  by (rule for_loop_eq [where P = "\<lambda>j t. t = b + (\<Sum>i<j. w ! i * x ! i)"])
     (use assms in \<open>simp_all add: algebra_simps\<close>)

lemma copy_loop:
  assumes "length w = n" and "n \<le> length ps"
  shows "for_loop 0 n (\<lambda>i w. rbind (vec_get ps i) (\<lambda>p. vec_put w i p)) w = Inr (take n ps)"
proof (rule for_loop_eq [where P = "\<lambda>j t. length t = n \<and> take j t = take j ps"])
  fix j t
  assume "j < n" and "length t = n \<and> take j t = take j ps"
  then show "\<exists>t'. rbind (vec_get ps j) (vec_put t j) = Inr t'
      \<and> length t' = n \<and> take (Suc j) t' = take (Suc j) ps"
    using assms by (simp add: take_Suc_conv_app_nth)
next
  fix t
  assume "length t = n \<and> take n t = take n ps"
  then have len: "length t = n" and eq: "take n t = take n ps" by blast+
  from len have "take n t = t" by simp
  with eq show "t = take n ps" by simp
qed (use assms in simp_all)

lemma LinearRegression_forward_eq:
  assumes "LinearRegression_wf m" and "length x = lin_input_size m"
  shows "LinearRegression_forward m x
         = Inr [lin_bias m + (\<Sum>i<lin_input_size m. lin_weights m ! i * x ! i)]"
  using assms
  by (simp add: LinearRegression_forward_def LinearRegression_wf_def dot_loop)

lemma LinearRegression_set_parameters_ok:
  assumes "LinearRegression_wf m" and "length ps = lin_input_size m + 1"
  shows "LinearRegression_set_parameters m ps
         = (Inr (), m\<lparr>lin_weights := take (lin_input_size m) ps,
                       lin_bias := ps ! lin_input_size m\<rparr>)"
  using assms
  by (simp add: LinearRegression_set_parameters_def LinearRegression_wf_def copy_loop)

lemma LinearRegression_set_parameters_bad:
  assumes "length ps \<noteq> lin_input_size m + 1"
  shows "LinearRegression_set_parameters m ps
         = (Inl (invalid_argument ''Parameter size mismatch''), m)"
  using assms by (simp add: LinearRegression_set_parameters_def)

lemma LinearRegression_wf_ctor: "LinearRegression_wf (LinearRegression_ctor n)"
  by (simp add: LinearRegression_wf_def LinearRegression_ctor_def)


section \<open>Claims about LinearRegression\<close>

text \<open>
  C8. A LinearRegression with input size \<open>n\<close> takes \<open>n\<close> weights followed by one bias:
  \<open>set_parameters\<close> accepts a vector of \<open>n + 1\<close> values (and rejects every other length),
  stores the first \<open>n\<close> as the weights and the last as the bias, and \<open>forward\<close> on an input
  \<open>x\<close> of length \<open>n\<close> then returns the one-element vector
  \<open>[bias + (\<Sum>i<n. weight i * x i)]\<close>, with no nonlinearity. \<open>forward\<close> on an input of any
  other length throws \<^verbatim>\<open>std::invalid_argument("Input size mismatch")\<close>, the spec's
  DimensionMismatch.
\<close>

theorem LinearRegression_parameters_and_forward:
  assumes "LinearRegression_wf m"
  shows "(length ps = lin_input_size m + 1 \<longrightarrow>
            LinearRegression_set_parameters m ps
              = (Inr (), m\<lparr>lin_weights := take (lin_input_size m) ps,
                            lin_bias := ps ! lin_input_size m\<rparr>)
            \<and> (length x = lin_input_size m \<longrightarrow>
                 LinearRegression_forward (snd (LinearRegression_set_parameters m ps)) x
                   = Inr [ps ! lin_input_size m + (\<Sum>i<lin_input_size m. ps ! i * x ! i)]))
       \<and> (length ps \<noteq> lin_input_size m + 1 \<longrightarrow>
            LinearRegression_set_parameters m ps
              = (Inl (invalid_argument ''Parameter size mismatch''), m))
       \<and> (length x \<noteq> lin_input_size m \<longrightarrow>
            LinearRegression_forward m x = Inl (invalid_argument ''Input size mismatch''))
       \<and> LinearRegression_output_size m = 1"
proof -
  let ?n = "lin_input_size m"
  have ok: "LinearRegression_forward (snd (LinearRegression_set_parameters m ps)) x
              = Inr [ps ! ?n + (\<Sum>i<?n. ps ! i * x ! i)]"
    if len: "length ps = ?n + 1" and lx: "length x = ?n"
  proof -
    let ?m' = "m\<lparr>lin_weights := take ?n ps, lin_bias := ps ! ?n\<rparr>"
    have "LinearRegression_wf ?m'"
      using len by (simp add: LinearRegression_wf_def)
    moreover have "length x = lin_input_size ?m'" using lx by simp
    ultimately have "LinearRegression_forward ?m' x
        = Inr [lin_bias ?m' + (\<Sum>i<lin_input_size ?m'. lin_weights ?m' ! i * x ! i)]"
      by (rule LinearRegression_forward_eq)
    then show ?thesis
      using assms len by (simp add: LinearRegression_set_parameters_ok)
  qed
  show ?thesis
    using assms ok
    by (simp add: LinearRegression_set_parameters_ok LinearRegression_set_parameters_bad
        LinearRegression_forward_def LinearRegression_output_size_def)
qed

text \<open>
  The spec's example: input size 3, parameters \<open>[0.5, 0.3, 0.2, 0.1]\<close> and input
  \<open>[1.0, 2.0, -0.5]\<close> give \<open>[1.1]\<close>; a two-element input and a two-element parameter
  vector are rejected, as in the repository's test "Model Error Handling".
\<close>

theorem LinearRegression_parameters_and_forward_witness:
  "LinearRegression_wf (LinearRegression_ctor 3)
   \<and> LinearRegression_forward
       (snd (LinearRegression_set_parameters (LinearRegression_ctor 3) [0.5, 0.3, 0.2, 0.1]))
       [1.0, 2.0, - 0.5] = Inr [1.1]
   \<and> LinearRegression_set_parameters (LinearRegression_ctor 3) [1.0, 2.0]
       = (Inl (invalid_argument ''Parameter size mismatch''), LinearRegression_ctor 3)
   \<and> LinearRegression_forward (LinearRegression_ctor 3) [1.0, 2.0]
       = Inl (invalid_argument ''Input size mismatch'')"
proof -
  let ?m = "LinearRegression_ctor 3"
  let ?ps = "[0.5, 0.3, 0.2, 0.1] :: float list"
  let ?x = "[1.0, 2.0, - 0.5] :: float list"
  let ?bad = "[1.0, 2.0] :: float list"
  have wf: "LinearRegression_wf ?m"
    by (rule LinearRegression_wf_ctor)
  have n: "lin_input_size ?m = 3"
    by (simp add: LinearRegression_ctor_def)
  have "length ?ps = lin_input_size ?m + 1" and "length ?x = lin_input_size ?m"
    by (simp_all add: n)
  with LinearRegression_parameters_and_forward [OF wf, of ?ps ?x]
  have "LinearRegression_forward (snd (LinearRegression_set_parameters ?m ?ps)) ?x
          = Inr [?ps ! lin_input_size ?m + (\<Sum>i<lin_input_size ?m. ?ps ! i * ?x ! i)]"
    by blast
  also have "\<dots> = Inr [1.1]"
    unfolding n by (simp add: numeral_3_eq_3)
  finally have good: "LinearRegression_forward
      (snd (LinearRegression_set_parameters ?m ?ps)) ?x = Inr [1.1]" .
  have "length ?bad \<noteq> lin_input_size ?m + 1" and "length ?bad \<noteq> lin_input_size ?m"
    by (simp_all add: n)
  with LinearRegression_parameters_and_forward [OF wf, of ?bad ?bad]
  have bad: "LinearRegression_set_parameters ?m ?bad
               = (Inl (invalid_argument ''Parameter size mismatch''), ?m)"
      "LinearRegression_forward ?m ?bad = Inl (invalid_argument ''Input size mismatch'')"
    by blast+
  from wf good bad show ?thesis by blast
qed

section \<open>Layers, softmax and parameter copies: what the loops compute\<close>

lemma accum_loop:
  fixes v :: "float list"
  assumes "c < length v"
    and "\<And>i. i < n \<Longrightarrow> rd i = Inr (W i)"
    and "\<And>i. i < n \<Longrightarrow> rx i = Inr (X i)"
  shows "for_loop 0 n
           (\<lambda>i v. rbind (rd i) (\<lambda>w. rbind (rx i) (\<lambda>x.
                     rbind (vec_get v c) (\<lambda>l. vec_put v c (l + w * x)))))
           v
         = Inr (v[c := v ! c + (\<Sum>i<n. W i * X i)])"
proof (rule for_loop_eq [where P = "\<lambda>j t. t = v[c := v ! c + (\<Sum>i<j. W i * X i)]"])
  show "v = v[c := v ! c + (\<Sum>i<0. W i * X i)]" by simp
next
  fix j t
  assume "j < n" and "t = v[c := v ! c + (\<Sum>i<j. W i * X i)]"
  then show "\<exists>t'. rbind (rd j) (\<lambda>w. rbind (rx j) (\<lambda>x.
                     rbind (vec_get t c) (\<lambda>l. vec_put t c (l + w * x))))
                  = Inr t' \<and> t' = v[c := v ! c + (\<Sum>i<Suc j. W i * X i)]"
    using assms by (simp add: algebra_simps)
qed simp_all

lemma layer_loop:
  fixes B :: "nat \<Rightarrow> float"
  assumes "\<And>c. c < k \<Longrightarrow> rb c = Inr (B c)"
    and "\<And>c i. c < k \<Longrightarrow> i < n \<Longrightarrow> rd c i = Inr (W c i)"
    and "\<And>i. i < n \<Longrightarrow> rx i = Inr (X i)"
  shows "for_loop 0 k
           (\<lambda>c v. rbind (rb c) (\<lambda>b. rbind (vec_put v c b) (\<lambda>v.
              for_loop 0 n
                (\<lambda>i v. rbind (rd c i) (\<lambda>w. rbind (rx i) (\<lambda>x.
                          rbind (vec_get v c) (\<lambda>l. vec_put v c (l + w * x)))))
                v)))
           (replicate k 0)
         = Inr (map (\<lambda>c. B c + (\<Sum>i<n. W c i * X i)) [0..<k])"
proof (rule for_loop_eq [where P = "\<lambda>j t. length t = k
         \<and> (\<forall>c<j. t ! c = B c + (\<Sum>i<n. W c i * X i))"])
  fix j t
  assume j: "j < k" and inv: "length t = k \<and> (\<forall>c<j. t ! c = B c + (\<Sum>i<n. W c i * X i))"
  have inner: "for_loop 0 n
                (\<lambda>i v. rbind (rd j i) (\<lambda>w. rbind (rx i) (\<lambda>x.
                          rbind (vec_get v j) (\<lambda>l. vec_put v j (l + w * x)))))
                (t[j := B j])
        = Inr ((t[j := B j])[j := (t[j := B j]) ! j + (\<Sum>i<n. W j i * X i)])"
    by (rule accum_loop) (use j inv assms in simp_all)
  show "\<exists>t'. rbind (rb j) (\<lambda>b. rbind (vec_put t j b) (\<lambda>v.
              for_loop 0 n
                (\<lambda>i v. rbind (rd j i) (\<lambda>w. rbind (rx i) (\<lambda>x.
                          rbind (vec_get v j) (\<lambda>l. vec_put v j (l + w * x)))))
                v)) = Inr t'
          \<and> length t' = k \<and> (\<forall>c<Suc j. t' ! c = B c + (\<Sum>i<n. W c i * X i))"
    using j inv assms(1) inner by (simp add: less_Suc_eq nth_list_update)
next
  fix t
  assume "length t = k \<and> (\<forall>c<k. t ! c = B c + (\<Sum>i<n. W c i * X i))"
  then show "t = map (\<lambda>c. B c + (\<Sum>i<n. W c i * X i)) [0..<k]"
    by (intro nth_equalityI) simp_all
qed simp_all


lemma MultiClassClassifier_logits_eq:
  assumes "MultiClassClassifier_wf m" and "length x = mc_input_size m"
  shows "MultiClassClassifier_logits m x
         = Inr (map (\<lambda>c. mc_biases m ! c + (\<Sum>i<mc_input_size m. mc_weights m ! c ! i * x ! i))
                    [0..<mc_num_classes m])"
  unfolding MultiClassClassifier_logits_def
  by (rule layer_loop)
     (use assms in \<open>simp_all add: MultiClassClassifier_wf_def list_all_length\<close>)

lemma foldl_max_Max: "foldl max (a :: real) xs = Max (set (a # xs))"
proof (induction xs arbitrary: a)
  case Nil
  show ?case by simp
next
  case (Cons b xs)
  have "Max (set (max a b # xs)) = Max (set (a # b # xs))"
    by (cases "xs = []") (simp_all add: max.assoc)
  with Cons show ?case by simp
qed

lemma max_element_eq: "v \<noteq> [] \<Longrightarrow> max_element v = Inr (Max (set v))"
  by (cases v) (simp_all add: max_element_def foldl_max_Max del: set_simps)

lemma max_element_empty: "max_element [] = Inl undefined_behaviour"
  by (simp add: max_element_def)

lemma exp_loop:
  fixes z :: "float list" and M :: float
  assumes "length z = k"
  shows "for_loop 0 k
           (\<lambda>c (probabilities, sum_exp).
              rbind (vec_get z c) (\<lambda>l.
              rbind (vec_put probabilities c (exp (l - M))) (\<lambda>probabilities.
              rbind (vec_get probabilities c) (\<lambda>p. Inr (probabilities, sum_exp + p)))))
           (replicate k 0, 0)
         = Inr (map (\<lambda>c. exp (z ! c - M)) [0..<k], (\<Sum>c<k. exp (z ! c - M)))"
proof (rule for_loop_eq [where P = "\<lambda>j t. length (fst t) = k
         \<and> (\<forall>c<j. fst t ! c = exp (z ! c - M)) \<and> snd t = (\<Sum>c<j. exp (z ! c - M))"])
  fix j and t :: "float list \<times> float"
  assume "j < k" and "length (fst t) = k
         \<and> (\<forall>c<j. fst t ! c = exp (z ! c - M)) \<and> snd t = (\<Sum>c<j. exp (z ! c - M))"
  then show "\<exists>t'. (case t of (probabilities, sum_exp) \<Rightarrow>
              rbind (vec_get z j) (\<lambda>l.
              rbind (vec_put probabilities j (exp (l - M))) (\<lambda>probabilities.
              rbind (vec_get probabilities j) (\<lambda>p. Inr (probabilities, sum_exp + p))))) = Inr t'
          \<and> length (fst t') = k
          \<and> (\<forall>c<Suc j. fst t' ! c = exp (z ! c - M)) \<and> snd t' = (\<Sum>c<Suc j. exp (z ! c - M))"
    using assms by (cases t) (simp add: less_Suc_eq nth_list_update)
next
  fix t :: "float list \<times> float"
  assume a: "length (fst t) = k
         \<and> (\<forall>c<k. fst t ! c = exp (z ! c - M)) \<and> snd t = (\<Sum>c<k. exp (z ! c - M))"
  then have "fst t = map (\<lambda>c. exp (z ! c - M)) [0..<k]"
    by (intro nth_equalityI) simp_all
  with a show "t = (map (\<lambda>c. exp (z ! c - M)) [0..<k], (\<Sum>c<k. exp (z ! c - M)))"
    by (cases t) simp
qed simp_all

lemma divide_loop:
  fixes p :: "float list" and s :: float
  assumes "length p = k"
  shows "for_loop 0 k
           (\<lambda>c probabilities.
              rbind (vec_get probabilities c) (\<lambda>q. vec_put probabilities c (q / s)))
           p
         = Inr (map (\<lambda>q. q / s) p)"
proof (rule for_loop_eq [where P = "\<lambda>j t. length t = k
         \<and> (\<forall>c<k. t ! c = (if c < j then p ! c / s else p ! c))"])
  fix j t
  assume "j < k" and "length t = k \<and> (\<forall>c<k. t ! c = (if c < j then p ! c / s else p ! c))"
  then show "\<exists>t'. rbind (vec_get t j) (\<lambda>q. vec_put t j (q / s)) = Inr t'
      \<and> length t' = k \<and> (\<forall>c<k. t' ! c = (if c < Suc j then p ! c / s else p ! c))"
    by (simp add: less_Suc_eq nth_list_update)
next
  fix t
  assume "length t = k \<and> (\<forall>c<k. t ! c = (if c < k then p ! c / s else p ! c))"
  then show "t = map (\<lambda>q. q / s) p"
    using assms by (intro nth_equalityI) simp_all
qed (use assms in simp_all)

lemma MultiClassClassifier_softmax_eq:
  assumes "length z = k" and "0 < k"
  shows "MultiClassClassifier_softmax k z
         = Inr (map (\<lambda>c. exp (z ! c - Max (set z)) / (\<Sum>j<k. exp (z ! j - Max (set z))))
                    [0..<k])"
proof -
  have "z \<noteq> []" using assms by auto
  then show ?thesis
    using assms
    by (simp add: MultiClassClassifier_softmax_def max_element_eq exp_loop divide_loop
        comp_def)
qed

lemma MultiClassClassifier_softmax_empty:
  "MultiClassClassifier_softmax k [] = Inl undefined_behaviour"
  by (simp add: MultiClassClassifier_softmax_def max_element_empty)

lemma copy_params_eq:
  assumes "n \<le> length v" and "idx + n \<le> length ps"
  shows "copy_params n ps (v, idx) = Inr (take n (drop idx ps) @ drop n v, idx + n)"
  unfolding copy_params_def
proof (rule for_loop_eq [where P = "\<lambda>j t. length (fst t) = length v
         \<and> take j (fst t) = take j (drop idx ps) \<and> drop j (fst t) = drop j v
         \<and> snd t = idx + j"])
  fix j and t :: "float list \<times> nat"
  assume j: "j < n" and inv: "length (fst t) = length v
         \<and> take j (fst t) = take j (drop idx ps) \<and> drop j (fst t) = drop j v
         \<and> snd t = idx + j"
  obtain u i where t: "t = (u, i)" by (cases t)
  have "take (Suc j) (u[j := ps ! (idx + j)]) = take (Suc j) (drop idx ps)"
    using j inv assms t by (simp add: take_Suc_conv_app_nth)
  moreover have "drop (Suc j) (u[j := ps ! (idx + j)]) = drop (Suc j) v"
    using inv t by (metis drop_Suc drop_update_cancel fst_conv lessI tl_drop)
  ultimately show "\<exists>t'. (case t of (v, idx) \<Rightarrow>
              rbind (vec_get ps idx) (\<lambda>p. rbind (vec_put v j p) (\<lambda>v. Inr (v, idx + 1)))) = Inr t'
          \<and> length (fst t') = length v
          \<and> take (Suc j) (fst t') = take (Suc j) (drop idx ps)
          \<and> drop (Suc j) (fst t') = drop (Suc j) v \<and> snd t' = idx + Suc j"
    using j inv assms t by simp
next
  fix t :: "float list \<times> nat"
  assume inv: "length (fst t) = length v
         \<and> take n (fst t) = take n (drop idx ps) \<and> drop n (fst t) = drop n v
         \<and> snd t = idx + n"
  have "fst t = take n (fst t) @ drop n (fst t)" by simp
  with inv have "fst t = take n (drop idx ps) @ drop n v" by simp
  with inv show "t = (take n (drop idx ps) @ drop n v, idx + n)" by (cases t) simp
qed (use assms in simp_all)

lemma copy_params_all:
  assumes "idx + length v \<le> length ps"
  shows "copy_params (length v) ps (v, idx) = Inr (take (length v) (drop idx ps), idx + length v)"
  using copy_params_eq [of "length v" v idx ps] assms by simp


lemma fill_step:
  assumes "j < n" and "length r = n" and "n \<le> length q"
  shows "(take j q @ drop j r)[j := q ! j] = take (Suc j) q @ drop (Suc j) r"
proof -
  have len: "length (take j q) = j" using assms by simp
  have d: "drop j r = r ! j # drop (Suc j) r"
    using assms by (simp add: Cons_nth_drop_Suc)
  have t: "take (Suc j) q = take j q @ [q ! j]"
    using assms by (simp add: take_Suc_conv_app_nth)
  show ?thesis
    unfolding d t using len by (simp add: list_update_append)
qed

lemma row_loop:
  fixes W :: "float list list"
  assumes "c < length W" and "length (W ! c) = n" and "idx + n \<le> length ps"
  shows "for_loop 0 n
           (\<lambda>i (weights, param_idx).
              rbind (vec_get ps param_idx) (\<lambda>p.
              rbind (vec_get weights c) (\<lambda>row.
              rbind (vec_put row i p) (\<lambda>row.
              rbind (vec_put weights c row) (\<lambda>weights.
              Inr (weights, param_idx + 1))))))
           (W, idx)
         = Inr (W[c := take n (drop idx ps)], idx + n)"
proof (rule for_loop_eq [where P = "\<lambda>j t.
         t = (W[c := take j (drop idx ps) @ drop j (W ! c)], idx + j)"])
  fix j and t :: "float list list \<times> nat"
  assume j: "j < n" and t: "t = (W[c := take j (drop idx ps) @ drop j (W ! c)], idx + j)"
  have "(take j (drop idx ps) @ drop j (W ! c))[j := drop idx ps ! j]
          = take (Suc j) (drop idx ps) @ drop (Suc j) (W ! c)"
    by (rule fill_step [OF j assms(2)]) (use assms in simp)
  moreover have "drop idx ps ! j = ps ! (idx + j)"
    using j assms by simp
  ultimately show "\<exists>t'. (case t of (weights, param_idx) \<Rightarrow>
              rbind (vec_get ps param_idx) (\<lambda>p.
              rbind (vec_get weights c) (\<lambda>row.
              rbind (vec_put row j p) (\<lambda>row.
              rbind (vec_put weights c row) (\<lambda>weights.
              Inr (weights, param_idx + 1)))))) = Inr t'
          \<and> t' = (W[c := take (Suc j) (drop idx ps) @ drop (Suc j) (W ! c)], idx + Suc j)"
    using j t assms by simp
qed (use assms in simp_all)

lemma weights_loop:
  fixes W :: "float list list"
  assumes "length W = k" and "\<forall>r<k. length (W ! r) = n" and "k * n \<le> length ps"
  shows "for_loop 0 k
           (\<lambda>c. for_loop 0 n
              (\<lambda>i (weights, param_idx).
                 rbind (vec_get ps param_idx) (\<lambda>p.
                 rbind (vec_get weights c) (\<lambda>row.
                 rbind (vec_put row i p) (\<lambda>row.
                 rbind (vec_put weights c row) (\<lambda>weights.
                 Inr (weights, param_idx + 1)))))))
           (W, 0)
         = Inr (map (\<lambda>c. take n (drop (c * n) ps)) [0..<k], k * n)"
proof (rule for_loop_eq [where P = "\<lambda>c t. length (fst t) = k
         \<and> (\<forall>r<k. length (fst t ! r) = n)
         \<and> (\<forall>r<c. fst t ! r = take n (drop (r * n) ps)) \<and> snd t = c * n"])
  fix c and t :: "float list list \<times> nat"
  assume c: "c < k" and inv: "length (fst t) = k
         \<and> (\<forall>r<k. length (fst t ! r) = n)
         \<and> (\<forall>r<c. fst t ! r = take n (drop (r * n) ps)) \<and> snd t = c * n"
  obtain V i where t: "t = (V, i)" by (cases t)
  have "Suc c * n \<le> k * n" using c by (intro mult_le_mono1) simp
  then have bound: "c * n + n \<le> length ps" using assms(3) by simp
  have "for_loop 0 n
          (\<lambda>i (weights, param_idx).
             rbind (vec_get ps param_idx) (\<lambda>p.
             rbind (vec_get weights c) (\<lambda>row.
             rbind (vec_put row i p) (\<lambda>row.
             rbind (vec_put weights c row) (\<lambda>weights.
             Inr (weights, param_idx + 1))))))
          (V, c * n)
        = Inr (V[c := take n (drop (c * n) ps)], c * n + n)"
    by (rule row_loop) (use c inv t bound in simp_all)
  moreover have "length (take n (drop (c * n) ps)) = n"
    using bound by simp
  ultimately show "\<exists>t'. for_loop 0 n
          (\<lambda>i (weights, param_idx).
             rbind (vec_get ps param_idx) (\<lambda>p.
             rbind (vec_get weights c) (\<lambda>row.
             rbind (vec_put row i p) (\<lambda>row.
             rbind (vec_put weights c row) (\<lambda>weights.
             Inr (weights, param_idx + 1))))))
          t = Inr t'
      \<and> length (fst t') = k
      \<and> (\<forall>r<k. length (fst t' ! r) = n)
      \<and> (\<forall>r<Suc c. fst t' ! r = take n (drop (r * n) ps)) \<and> snd t' = Suc c * n"
    using c inv t by (simp add: less_Suc_eq nth_list_update)
next
  fix t :: "float list list \<times> nat"
  assume inv: "length (fst t) = k
         \<and> (\<forall>r<k. length (fst t ! r) = n)
         \<and> (\<forall>r<k. fst t ! r = take n (drop (r * n) ps)) \<and> snd t = k * n"
  then have "fst t = map (\<lambda>c. take n (drop (c * n) ps)) [0..<k]"
    by (intro nth_equalityI) simp_all
  with inv show "t = (map (\<lambda>c. take n (drop (c * n) ps)) [0..<k], k * n)"
    by (cases t) simp
qed (use assms in simp_all)

lemma MultiClassClassifier_set_parameters_ok:
  assumes "MultiClassClassifier_wf m"
    and "length ps = mc_num_classes m * mc_input_size m + mc_num_classes m"
  shows "MultiClassClassifier_set_parameters m ps
         = (Inr (), m\<lparr>mc_weights := map (\<lambda>c. take (mc_input_size m) (drop (c * mc_input_size m) ps))
                                         [0..<mc_num_classes m],
                       mc_biases := drop (mc_num_classes m * mc_input_size m) ps\<rparr>)"
proof -
  let ?k = "mc_num_classes m" and ?n = "mc_input_size m"
  have W: "for_loop 0 ?k
           (\<lambda>c. for_loop 0 ?n
              (\<lambda>i (weights, param_idx).
                 rbind (vec_get ps param_idx) (\<lambda>p.
                 rbind (vec_get weights c) (\<lambda>row.
                 rbind (vec_put row i p) (\<lambda>row.
                 rbind (vec_put weights c row) (\<lambda>weights.
                 Inr (weights, param_idx + 1)))))))
           (mc_weights m, 0)
         = Inr (map (\<lambda>c. take ?n (drop (c * ?n) ps)) [0..<?k], ?k * ?n)"
    by (rule weights_loop)
       (use assms in \<open>simp_all add: MultiClassClassifier_wf_def list_all_length\<close>)
  have "copy_params (length (mc_biases m)) ps (mc_biases m, ?k * ?n)
          = Inr (take (length (mc_biases m)) (drop (?k * ?n) ps), ?k * ?n + length (mc_biases m))"
    by (rule copy_params_all) (use assms in \<open>simp add: MultiClassClassifier_wf_def\<close>)
  then have B: "copy_params ?k ps (mc_biases m, ?k * ?n) = Inr (drop (?k * ?n) ps, ?k * ?n + ?k)"
    using assms by (simp add: MultiClassClassifier_wf_def)
  show ?thesis
    unfolding MultiClassClassifier_set_parameters_def Let_def W using assms(2) by (simp add: B)
qed

lemma MultiClassClassifier_set_parameters_bad:
  assumes "length ps \<noteq> mc_num_classes m * mc_input_size m + mc_num_classes m"
  shows "MultiClassClassifier_set_parameters m ps
         = (Inl (invalid_argument ''Parameter size mismatch''), m)"
  using assms by (simp add: MultiClassClassifier_set_parameters_def)

lemma MultiClassClassifier_wf_ctor: "MultiClassClassifier_wf (MultiClassClassifier_ctor n k)"
  by (simp add: MultiClassClassifier_wf_def MultiClassClassifier_ctor_def list_all_length)

lemma MultiClassClassifier_wf_set_parameters:
  assumes "MultiClassClassifier_wf m"
  shows "MultiClassClassifier_wf (snd (MultiClassClassifier_set_parameters m ps))"
proof (cases "length ps = mc_num_classes m * mc_input_size m + mc_num_classes m")
  case True
  have "Suc c * mc_input_size m \<le> mc_num_classes m * mc_input_size m"
    if "c < mc_num_classes m" for c
    using that by (intro mult_le_mono1) simp
  then have "\<forall>c<mc_num_classes m.
      min (length ps - c * mc_input_size m) (mc_input_size m) = mc_input_size m"
    using True by fastforce
  then show ?thesis
    using assms True
    by (simp add: MultiClassClassifier_set_parameters_ok MultiClassClassifier_wf_def
        list_all_length)
next
  case False
  then show ?thesis
    using assms by (simp add: MultiClassClassifier_set_parameters_bad)
qed

lemma sum_list_upt: "sum_list (map f [0..<k]) = (\<Sum>j<k. f j :: real)"
  by (simp add: interv_sum_list_conv_sum_set_nat lessThan_atLeast0)

lemma stabilised_softmax:
  fixes z :: "float list"
  assumes "k = length z"
  shows "map (\<lambda>c. exp (z ! c - M) / (\<Sum>j<k. exp (z ! j - M))) [0..<k] = softmax z"
proof -
  have s: "(\<Sum>j<k. exp (z ! j - M)) = sum_list (map exp z) / exp M"
  proof -
    have "(\<Sum>j<k. exp (z ! j - M)) = (\<Sum>j<k. exp (z ! j)) / exp M"
      by (simp add: exp_diff sum_divide_distrib)
    also have "(\<Sum>j<k. exp (z ! j)) = sum_list (map (\<lambda>j. exp (z ! j)) [0..<k])"
      by (simp add: sum_list_upt)
    also have "map (\<lambda>j. exp (z ! j)) [0..<k] = map exp z"
      using assms by (intro nth_equalityI) simp_all
    finally show ?thesis .
  qed
  show ?thesis
    unfolding softmax_def s
    using assms by (intro nth_equalityI) (simp_all add: exp_diff)
qed

lemma MultiClassClassifier_forward_eq:
  assumes "MultiClassClassifier_wf m" and "length x = mc_input_size m"
    and "0 < mc_num_classes m"
  shows "MultiClassClassifier_forward m x
         = Inr (softmax (map (\<lambda>c. mc_biases m ! c
                                + (\<Sum>i<mc_input_size m. mc_weights m ! c ! i * x ! i))
                             [0..<mc_num_classes m]))"
proof -
  let ?z = "map (\<lambda>c. mc_biases m ! c + (\<Sum>i<mc_input_size m. mc_weights m ! c ! i * x ! i))
                [0..<mc_num_classes m]"
  have "MultiClassClassifier_forward m x
          = MultiClassClassifier_softmax (mc_num_classes m) ?z"
    using assms by (simp add: MultiClassClassifier_forward_def MultiClassClassifier_logits_eq)
  also have "\<dots> = Inr (map (\<lambda>c. exp (?z ! c - Max (set ?z))
                              / (\<Sum>j<mc_num_classes m. exp (?z ! j - Max (set ?z))))
                        [0..<mc_num_classes m])"
    by (rule MultiClassClassifier_softmax_eq) (use assms in simp_all)
  also have "\<dots> = Inr (softmax ?z)"
    by (subst stabilised_softmax) simp_all
  finally show ?thesis .
qed

lemma MultiClassClassifier_forward_no_classes:
  assumes "MultiClassClassifier_wf m" and "length x = mc_input_size m"
    and "mc_num_classes m = 0"
  shows "MultiClassClassifier_forward m x = Inl undefined_behaviour"
  using assms
  by (simp add: MultiClassClassifier_forward_def MultiClassClassifier_logits_eq
      MultiClassClassifier_softmax_empty)

section \<open>Claims about MultiClassClassifier\<close>

lemma row_index_bound:
  assumes "c < k" and "i < n"
  shows "c * n + i < k * (n::nat)"
proof -
  have "Suc c * n \<le> k * n" using assms(1) by (intro mult_le_mono1) simp
  with assms(2) show ?thesis by simp
qed

lemma MultiClassClassifier_logits_after_set:
  assumes "MultiClassClassifier_wf m"
    and "length ps = mc_num_classes m * mc_input_size m + mc_num_classes m"
    and "length x = mc_input_size m"
  shows "MultiClassClassifier_logits (snd (MultiClassClassifier_set_parameters m ps)) x
         = Inr (map (\<lambda>c. ps ! (mc_num_classes m * mc_input_size m + c)
                         + (\<Sum>i<mc_input_size m. ps ! (c * mc_input_size m + i) * x ! i))
                    [0..<mc_num_classes m])"
proof -
  let ?k = "mc_num_classes m" and ?n = "mc_input_size m"
  let ?m' = "snd (MultiClassClassifier_set_parameters m ps)"
  have m': "?m' = m\<lparr>mc_weights := map (\<lambda>c. take ?n (drop (c * ?n) ps)) [0..<?k],
                      mc_biases := drop (?k * ?n) ps\<rparr>"
    using assms by (simp add: MultiClassClassifier_set_parameters_ok)
  have wf': "MultiClassClassifier_wf ?m'"
    using assms(1) by (rule MultiClassClassifier_wf_set_parameters)
  have shape: "mc_num_classes ?m' = ?k" "mc_input_size ?m' = ?n"
    by (simp_all add: m')
  have b: "mc_biases ?m' ! c = ps ! (?k * ?n + c)" if "c < ?k" for c
    using that assms(2) by (simp add: m')
  have w: "mc_weights ?m' ! c ! i = ps ! (c * ?n + i)" if "c < ?k" and "i < ?n" for c i
  proof -
    have "c * ?n + i < ?k * ?n" using that by (rule row_index_bound)
    then show ?thesis using that assms(2) by (simp add: m')
  qed
  have "MultiClassClassifier_logits ?m' x
          = Inr (map (\<lambda>c. mc_biases ?m' ! c + (\<Sum>i<mc_input_size ?m'. mc_weights ?m' ! c ! i * x ! i))
                     [0..<mc_num_classes ?m'])"
    by (rule MultiClassClassifier_logits_eq [OF wf']) (simp add: shape assms)
  also have "map (\<lambda>c. mc_biases ?m' ! c + (\<Sum>i<mc_input_size ?m'. mc_weights ?m' ! c ! i * x ! i))
                     [0..<mc_num_classes ?m']
           = map (\<lambda>c. ps ! (?k * ?n + c) + (\<Sum>i<?n. ps ! (c * ?n + i) * x ! i)) [0..<?k]"
    unfolding shape by (intro nth_equalityI) (simp_all add: b w)
  finally show ?thesis .
qed

lemma MultiClassClassifier_forward_logits:
  assumes "MultiClassClassifier_wf m" and "length x = mc_input_size m"
    and "0 < mc_num_classes m" and "MultiClassClassifier_logits m x = Inr z"
  shows "MultiClassClassifier_forward m x = Inr (softmax z)"
  using assms MultiClassClassifier_forward_eq [OF assms(1,2,3)]
  by (simp add: MultiClassClassifier_logits_eq)

text \<open>
  C3, amended. A MultiClassClassifier with input size \<open>n\<close> and \<open>k \<ge> 1\<close> classes takes
  \<open>k * n + k\<close> parameters (and rejects every other length): for each class \<open>c\<close> its \<open>n\<close>
  weights, at the indices \<open>c * n + i\<close>, then the \<open>k\<close> biases as a trailing block, at the
  indices \<open>k * n + c\<close>. On an input \<open>x\<close> of length \<open>n\<close> the logit of class \<open>c\<close> is
  \<open>bias c + (\<Sum>i<n. weight c i * x i)\<close> and \<open>forward\<close> returns the softmax of the logits.
  For the spec's example (\<open>n = 2\<close>, \<open>k = 3\<close>) the logits are \<open>[0.6, -0.48, 1.06]\<close>: see the
  witness.
\<close>

theorem MultiClassClassifier_parameters_and_forward:
  assumes "MultiClassClassifier_wf m" and "0 < mc_num_classes m"
  shows "(length ps = mc_num_classes m * mc_input_size m + mc_num_classes m \<longrightarrow>
            MultiClassClassifier_set_parameters m ps
              = (Inr (), m\<lparr>mc_weights := map (\<lambda>c. take (mc_input_size m)
                                                       (drop (c * mc_input_size m) ps))
                                              [0..<mc_num_classes m],
                            mc_biases := drop (mc_num_classes m * mc_input_size m) ps\<rparr>)
            \<and> (length x = mc_input_size m \<longrightarrow>
                 MultiClassClassifier_logits (snd (MultiClassClassifier_set_parameters m ps)) x
                   = Inr (map (\<lambda>c. ps ! (mc_num_classes m * mc_input_size m + c)
                                   + (\<Sum>i<mc_input_size m. ps ! (c * mc_input_size m + i) * x ! i))
                              [0..<mc_num_classes m])
                 \<and> MultiClassClassifier_forward (snd (MultiClassClassifier_set_parameters m ps)) x
                   = Inr (softmax
                       (map (\<lambda>c. ps ! (mc_num_classes m * mc_input_size m + c)
                                   + (\<Sum>i<mc_input_size m. ps ! (c * mc_input_size m + i) * x ! i))
                            [0..<mc_num_classes m]))))
       \<and> (length ps \<noteq> mc_num_classes m * mc_input_size m + mc_num_classes m \<longrightarrow>
            MultiClassClassifier_set_parameters m ps
              = (Inl (invalid_argument ''Parameter size mismatch''), m))"
proof -
  let ?m' = "snd (MultiClassClassifier_set_parameters m ps)"
  have fw: "MultiClassClassifier_forward ?m' x
      = Inr (softmax (map (\<lambda>c. ps ! (mc_num_classes m * mc_input_size m + c)
                                   + (\<Sum>i<mc_input_size m. ps ! (c * mc_input_size m + i) * x ! i))
                            [0..<mc_num_classes m]))"
    if len: "length ps = mc_num_classes m * mc_input_size m + mc_num_classes m"
      and lx: "length x = mc_input_size m"
  proof (rule MultiClassClassifier_forward_logits)
    show "MultiClassClassifier_wf ?m'"
      using assms(1) by (rule MultiClassClassifier_wf_set_parameters)
    show "length x = mc_input_size ?m'" "0 < mc_num_classes ?m'"
      using assms len lx by (simp_all add: MultiClassClassifier_set_parameters_ok)
    show "MultiClassClassifier_logits ?m' x
      = Inr (map (\<lambda>c. ps ! (mc_num_classes m * mc_input_size m + c)
                                   + (\<Sum>i<mc_input_size m. ps ! (c * mc_input_size m + i) * x ! i))
                            [0..<mc_num_classes m])"
      using assms(1) len lx by (rule MultiClassClassifier_logits_after_set)
  qed
  show ?thesis
  proof (intro conjI impI)
    assume "length ps = mc_num_classes m * mc_input_size m + mc_num_classes m"
    with assms(1) show "MultiClassClassifier_set_parameters m ps
              = (Inr (), m\<lparr>mc_weights := map (\<lambda>c. take (mc_input_size m)
                                                       (drop (c * mc_input_size m) ps))
                                              [0..<mc_num_classes m],
                            mc_biases := drop (mc_num_classes m * mc_input_size m) ps\<rparr>)"
      by (rule MultiClassClassifier_set_parameters_ok)
  next
    assume "length ps = mc_num_classes m * mc_input_size m + mc_num_classes m"
      and "length x = mc_input_size m"
    with assms(1) show "MultiClassClassifier_logits ?m' x
      = Inr (map (\<lambda>c. ps ! (mc_num_classes m * mc_input_size m + c)
                                   + (\<Sum>i<mc_input_size m. ps ! (c * mc_input_size m + i) * x ! i))
                            [0..<mc_num_classes m])"
      by (rule MultiClassClassifier_logits_after_set)
  next
    assume "length ps = mc_num_classes m * mc_input_size m + mc_num_classes m"
      and "length x = mc_input_size m"
    then show "MultiClassClassifier_forward ?m' x
      = Inr (softmax (map (\<lambda>c. ps ! (mc_num_classes m * mc_input_size m + c)
                                   + (\<Sum>i<mc_input_size m. ps ! (c * mc_input_size m + i) * x ! i))
                            [0..<mc_num_classes m]))"
      by (rule fw)
  next
    assume "length ps \<noteq> mc_num_classes m * mc_input_size m + mc_num_classes m"
    then show "MultiClassClassifier_set_parameters m ps
              = (Inl (invalid_argument ''Parameter size mismatch''), m)"
      by (rule MultiClassClassifier_set_parameters_bad)
  qed
qed

lemma example_logits:
  "MultiClassClassifier_logits
     (snd (MultiClassClassifier_set_parameters (MultiClassClassifier_ctor 2 3)
            [1.0, 0.5, 0.2, - 0.5, 1.2, - 0.1, 0.2, - 0.8, 0.3]))
     [0.6, - 0.4]
   = Inr [0.6, - 0.48, 1.06]"
proof -
  let ?m = "MultiClassClassifier_ctor 2 3"
  let ?ps = "[1.0, 0.5, 0.2, - 0.5, 1.2, - 0.1, 0.2, - 0.8, 0.3] :: float list"
  let ?x = "[0.6, - 0.4] :: float list"
  have shape: "mc_num_classes ?m = 3" "mc_input_size ?m = 2"
    by (simp_all add: MultiClassClassifier_ctor_def)
  have "MultiClassClassifier_logits (snd (MultiClassClassifier_set_parameters ?m ?ps)) ?x
         = Inr (map (\<lambda>c. ?ps ! (mc_num_classes ?m * mc_input_size ?m + c)
                         + (\<Sum>i<mc_input_size ?m. ?ps ! (c * mc_input_size ?m + i) * ?x ! i))
                    [0..<mc_num_classes ?m])"
    by (rule MultiClassClassifier_logits_after_set)
       (simp_all add: MultiClassClassifier_wf_ctor shape)
  also have "\<dots> = Inr [0.6, - 0.48, 1.06]"
    unfolding shape by (simp add: numeral_3_eq_3 numeral_2_eq_2 upt_rec)
  finally show ?thesis .
qed


theorem MultiClassClassifier_parameters_and_forward_witness:
  "MultiClassClassifier_wf (MultiClassClassifier_ctor 2 3)
   \<and> 0 < mc_num_classes (MultiClassClassifier_ctor 2 3)
   \<and> MultiClassClassifier_logits
       (snd (MultiClassClassifier_set_parameters (MultiClassClassifier_ctor 2 3)
              [1.0, 0.5, 0.2, - 0.5, 1.2, - 0.1, 0.2, - 0.8, 0.3]))
       [0.6, - 0.4]
     = Inr [0.6, - 0.48, 1.06]
   \<and> MultiClassClassifier_forward
       (snd (MultiClassClassifier_set_parameters (MultiClassClassifier_ctor 2 3)
              [1.0, 0.5, 0.2, - 0.5, 1.2, - 0.1, 0.2, - 0.8, 0.3]))
       [0.6, - 0.4]
     = Inr (softmax [0.6, - 0.48, 1.06])
   \<and> MultiClassClassifier_set_parameters (MultiClassClassifier_ctor 2 3) [1.0, 2.0]
     = (Inl (invalid_argument ''Parameter size mismatch''), MultiClassClassifier_ctor 2 3)"
proof -
  let ?m = "MultiClassClassifier_ctor 2 3"
  let ?ps = "[1.0, 0.5, 0.2, - 0.5, 1.2, - 0.1, 0.2, - 0.8, 0.3] :: float list"
  let ?x = "[0.6, - 0.4] :: float list"
  let ?bad = "[1.0, 2.0] :: float list"
  have wf: "MultiClassClassifier_wf ?m"
    by (rule MultiClassClassifier_wf_ctor)
  have shape: "mc_num_classes ?m = 3" "mc_input_size ?m = 2"
    by (simp_all add: MultiClassClassifier_ctor_def)
  have pos: "0 < mc_num_classes ?m" by (simp add: shape)
  have z: "map (\<lambda>c. ?ps ! (mc_num_classes ?m * mc_input_size ?m + c)
                    + (\<Sum>i<mc_input_size ?m. ?ps ! (c * mc_input_size ?m + i) * ?x ! i))
               [0..<mc_num_classes ?m]
           = [0.6, - 0.48, 1.06]"
    unfolding shape by (simp add: numeral_3_eq_3 numeral_2_eq_2 upt_rec)
  have "length ?ps = mc_num_classes ?m * mc_input_size ?m + mc_num_classes ?m"
    and "length ?x = mc_input_size ?m"
    by (simp_all add: shape)
  with MultiClassClassifier_parameters_and_forward [OF wf pos, of ?ps ?x]
  have good: "MultiClassClassifier_logits (snd (MultiClassClassifier_set_parameters ?m ?ps)) ?x
                = Inr [0.6, - 0.48, 1.06]"
      "MultiClassClassifier_forward (snd (MultiClassClassifier_set_parameters ?m ?ps)) ?x
                = Inr (softmax [0.6, - 0.48, 1.06])"
    unfolding z by blast+
  have "length ?bad \<noteq> mc_num_classes ?m * mc_input_size ?m + mc_num_classes ?m"
    by (simp add: shape)
  with MultiClassClassifier_parameters_and_forward [OF wf pos, of ?bad ?x]
  have bad: "MultiClassClassifier_set_parameters ?m ?bad
               = (Inl (invalid_argument ''Parameter size mismatch''), ?m)"
    by blast
  from wf pos good bad show ?thesis by blast
qed

text \<open>
  C3 as stated gives the logits \<open>[0.4, -0.88, 0.74]\<close> for the example. They are not what the
  code computes: the stated values read the nine parameters as three interleaved triples
  (weight, weight, bias), which is not the layout of \<open>set_parameters\<close>, and the first of them
  is not the value of its own formula either.
\<close>

theorem MultiClassClassifier_example_logits_counterexample:
  "MultiClassClassifier_logits
     (snd (MultiClassClassifier_set_parameters (MultiClassClassifier_ctor 2 3)
            [1.0, 0.5, 0.2, - 0.5, 1.2, - 0.1, 0.2, - 0.8, 0.3]))
     [0.6, - 0.4]
   \<noteq> Inr [0.4, - 0.88, 0.74]"
  unfolding example_logits by simp

text \<open>
  C10. Neither the constructor nor the factory rejects \<open>num_classes = 0\<close>. On a
  well-formed classifier with at least one class, \<open>forward\<close> on an input of the right length
  returns normally: every vector access is in bounds. On a classifier constructed with no
  class, \<open>forward\<close> on an input of the right length dereferences \<^verbatim>\<open>max_element\<close> of an empty
  logit vector: undefined behaviour, reached through the public interface.
\<close>

theorem MultiClassClassifier_zero_classes:
  "create_model2 ''multiclass'' n 0 = Inr (MultiClass (MultiClassClassifier_ctor n 0))
   \<and> (MultiClassClassifier_wf m \<and> length x = mc_input_size m \<and> 0 < mc_num_classes m
        \<longrightarrow> (\<exists>y. MultiClassClassifier_forward m x = Inr y))
   \<and> (length x = n \<and> 0 < k
        \<longrightarrow> (\<exists>y. forward (MultiClass (MultiClassClassifier_ctor n k)) x = Inr y))
   \<and> (length x = n
        \<longrightarrow> forward (MultiClass (MultiClassClassifier_ctor n 0)) x = Inl undefined_behaviour)"
proof (intro conjI impI)
  show "create_model2 ''multiclass'' n 0 = Inr (MultiClass (MultiClassClassifier_ctor n 0))"
    by (simp add: create_model2_def)
next
  assume "MultiClassClassifier_wf m \<and> length x = mc_input_size m \<and> 0 < mc_num_classes m"
  then show "\<exists>y. MultiClassClassifier_forward m x = Inr y"
    by (simp add: MultiClassClassifier_forward_eq)
next
  assume "length x = n \<and> 0 < k"
  then have "length x = mc_input_size (MultiClassClassifier_ctor n k)"
    and "0 < mc_num_classes (MultiClassClassifier_ctor n k)"
    by (simp_all add: MultiClassClassifier_ctor_def)
  then show "\<exists>y. forward (MultiClass (MultiClassClassifier_ctor n k)) x = Inr y"
    by (simp add: MultiClassClassifier_forward_eq MultiClassClassifier_wf_ctor)
next
  assume "length x = n"
  then have "MultiClassClassifier_forward (MultiClassClassifier_ctor n 0) x
               = Inl undefined_behaviour"
    by (intro MultiClassClassifier_forward_no_classes MultiClassClassifier_wf_ctor)
       (simp_all add: MultiClassClassifier_ctor_def)
  then show "forward (MultiClass (MultiClassClassifier_ctor n 0)) x = Inl undefined_behaviour"
    by simp
qed

theorem MultiClassClassifier_zero_classes_witness:
  "create_model2 ''multiclass'' 2 0 = Inr (MultiClass (MultiClassClassifier_ctor 2 0))
   \<and> MultiClassClassifier_wf (MultiClassClassifier_ctor 2 3)
   \<and> (\<exists>y. MultiClassClassifier_forward (MultiClassClassifier_ctor 2 3) [0.6, - 0.4] = Inr y)
   \<and> (\<exists>y. forward (MultiClass (MultiClassClassifier_ctor 2 3)) [0.6, - 0.4] = Inr y)
   \<and> forward (MultiClass (MultiClassClassifier_ctor 2 0)) [0.6, - 0.4]
       = Inl undefined_behaviour"
proof -
  let ?m = "MultiClassClassifier_ctor 2 3"
  let ?x = "[0.6, - 0.4] :: float list"
  have wf: "MultiClassClassifier_wf ?m"
    by (rule MultiClassClassifier_wf_ctor)
  have "length ?x = mc_input_size ?m" and "0 < mc_num_classes ?m" and "length ?x = 2"
    and "(0::nat) < 3"
    by (simp_all add: MultiClassClassifier_ctor_def)
  with wf MultiClassClassifier_zero_classes [of 2 ?m ?x 3]
  show ?thesis by blast
qed

section \<open>LogisticRegression and TwoLayerMLP: what the loops compute\<close>














section \<open>Claims about TwoLayerMLP\<close>






section \<open>Claims about all variants and the factory\<close>












text \<open>
  C7. The factory constructs the variant named by the type identifier:
  \<^verbatim>\<open>create_model("linear", n)\<close> yields a model with input size \<open>n\<close> and output size 1, and
  likewise for the other three identifiers with their own number of shape integers. Each
  overload throws \<^verbatim>\<open>std::invalid_argument("Unknown ... model type: " + type_name)\<close>, the
  spec's UnknownModelType, for every identifier it does not serve: an unrecognised one,
  and a recognised one that takes another number of shape integers.
\<close>

theorem create_model_by_identifier:
  "create_model1 ''linear'' n = Inr (Linear (LinearRegression_ctor n))
   \<and> input_size (Linear (LinearRegression_ctor n)) = n
   \<and> output_size (Linear (LinearRegression_ctor n)) = 1
   \<and> create_model1 ''logistic'' n = Inr (Logistic (LogisticRegression_ctor n))
   \<and> input_size (Logistic (LogisticRegression_ctor n)) = n
   \<and> output_size (Logistic (LogisticRegression_ctor n)) = 1
   \<and> create_model2 ''multiclass'' n k = Inr (MultiClass (MultiClassClassifier_ctor n k))
   \<and> input_size (MultiClass (MultiClassClassifier_ctor n k)) = n
   \<and> output_size (MultiClass (MultiClassClassifier_ctor n k)) = k
   \<and> create_model3 ''mlp'' n h oc = Inr (MLP (TwoLayerMLP_ctor n h oc))
   \<and> input_size (MLP (TwoLayerMLP_ctor n h oc)) = n
   \<and> output_size (MLP (TwoLayerMLP_ctor n h oc)) = oc
   \<and> (t \<noteq> ''linear'' \<and> t \<noteq> ''logistic'' \<longrightarrow>
        create_model1 t n
          = Inl (invalid_argument (''Unknown single-parameter model type: '' @ t)))
   \<and> (t \<noteq> ''multiclass'' \<longrightarrow>
        create_model2 t n k
          = Inl (invalid_argument (''Unknown two-parameter model type: '' @ t)))
   \<and> (t \<noteq> ''mlp'' \<longrightarrow>
        create_model3 t n h oc
          = Inl (invalid_argument (''Unknown three-parameter model type: '' @ t)))"
  by (simp add: create_model1_def create_model2_def create_model3_def
      LinearRegression_input_size_def LinearRegression_output_size_def
      LinearRegression_ctor_def
      LogisticRegression_input_size_def LogisticRegression_output_size_def
      LogisticRegression_ctor_def
      MultiClassClassifier_input_size_def MultiClassClassifier_output_size_def
      MultiClassClassifier_ctor_def
      TwoLayerMLP_input_size_def TwoLayerMLP_output_size_def TwoLayerMLP_ctor_def)

text \<open>
  The calls of the spec and of the repository's test "Registry Error Handling":
  \<^verbatim>\<open>create_model("linear", 3)\<close>, \<^verbatim>\<open>create_model("bogus", 2)\<close> and
  \<^verbatim>\<open>create_model("linear", 2, 3)\<close>.
\<close>

theorem create_model_by_identifier_witness:
  "create_model1 ''linear'' 3 = Inr (Linear (LinearRegression_ctor 3))
   \<and> input_size (Linear (LinearRegression_ctor 3)) = 3
   \<and> output_size (Linear (LinearRegression_ctor 3)) = 1
   \<and> \<not> is_registered ''bogus''
   \<and> create_model1 ''bogus'' 2
       = Inl (invalid_argument ''Unknown single-parameter model type: bogus'')
   \<and> is_registered ''linear''
   \<and> create_model2 ''linear'' 2 3
       = Inl (invalid_argument ''Unknown two-parameter model type: linear'')
   \<and> create_model3 ''linear'' 2 3 4
       = Inl (invalid_argument ''Unknown three-parameter model type: linear'')"
  using create_model_by_identifier [of 3 0 0 0 "''bogus''"]
        create_model_by_identifier [of 2 3 4 0 "''bogus''"]
        create_model_by_identifier [of 2 3 3 4 "''linear''"]
  by (simp add: is_registered_def)

section \<open>TestDataLoader: one line at a time\<close>

lemma load_lines_append:
  "load_lines stof n (xs @ ys)
   = (fst (load_lines stof n xs) @ fst (load_lines stof (n + length xs) ys),
      snd (load_lines stof n xs) @ snd (load_lines stof (n + length xs) ys))"
proof (induction xs arbitrary: n)
  case Nil
  show ?case by simp
next
  case (Cons line rest)
  show ?case
    by (simp add: Cons.IH [of "Suc n"] Let_def split_beta split: sum.split)
qed

lemma find_from_None:
  assumes "pat \<noteq> []" and "\<forall>p. take (length pat) (drop p s) \<noteq> pat"
  shows "find_from pat i s = None"
  using assms(2)
proof (induction s arbitrary: i)
  case Nil
  with assms(1) show ?case by simp
next
  case (Cons c cs)
  from Cons.prems have "take (length pat) (drop 0 (c # cs)) \<noteq> pat" by blast
  moreover have "\<forall>p. take (length pat) (drop p cs) \<noteq> pat"
  proof
    fix p
    from Cons.prems have "take (length pat) (drop (Suc p) (c # cs)) \<noteq> pat" by blast
    then show "take (length pat) (drop p cs) \<noteq> pat" by simp
  qed
  ultimately show ?case using Cons.IH by simp
qed

lemma find_from_first:
  assumes "pat \<noteq> []" and "take (length pat) (drop p s) = pat"
    and "\<forall>q<p. take (length pat) (drop q s) \<noteq> pat"
  shows "find_from pat i s = Some (i + p)"
  using assms(2,3)
proof (induction s arbitrary: i p)
  case Nil
  with assms(1) show ?case by simp
next
  case (Cons c cs)
  show ?case
  proof (cases p)
    case 0
    with Cons.prems show ?thesis by simp
  next
    case (Suc p')
    with Cons.prems have "take (length pat) (drop 0 (c # cs)) \<noteq> pat" by blast
    moreover have "take (length pat) (drop p' cs) = pat"
      using Cons.prems(1) Suc by simp
    moreover have "\<forall>q<p'. take (length pat) (drop q cs) \<noteq> pat"
    proof (intro allI impI)
      fix q
      assume "q < p'"
      then have "Suc q < p" using Suc by simp
      with Cons.prems(2) have "take (length pat) (drop (Suc q) (c # cs)) \<noteq> pat" by blast
      then show "take (length pat) (drop q cs) \<noteq> pat" by simp
    qed
    ultimately show ?thesis
      using Cons.IH [of p' "Suc i"] Suc by simp
  qed
qed

lemma parse_line_no_arrow:
  assumes "\<forall>p. take 2 (drop p line) \<noteq> ''->''"
  shows "parse_line stof line k = Inl (runtime_error ''Missing '->' separator'')"
proof -
  have "find_from ''->'' 0 line = None"
    by (rule find_from_None) (use assms in \<open>simp_all add: numeral_2_eq_2\<close>)
  then show ?thesis by (simp add: parse_line_def find_str_def)
qed

lemma parse_line_two_fields:
  assumes "take 2 (drop p line) = ''->''" and "\<forall>q<p. take 2 (drop q line) \<noteq> ''->''"
    and "parse_float_list stof (trim (take p line)) = Inr xs"
    and "parse_float_list stof (trim (drop (p + 2) line)) = Inr ys"
  shows "parse_line stof line k
         = Inr \<lparr>tc_input = xs, tc_expected_output = ys,
                tc_description = ''Line '' @ to_string k\<rparr>"
proof -
  have "find_from ''->'' 0 line = Some (0 + p)"
    by (rule find_from_first) (use assms(1,2) in \<open>simp_all add: numeral_2_eq_2\<close>)
  then show ?thesis
    using assms(3,4) by (simp add: parse_line_def find_str_def substr_def)
qed


lemma find_from_None_D:
  assumes "pat \<noteq> []" and "find_from pat i s = None"
  shows "take (length pat) (drop p s) \<noteq> pat"
  using assms(2)
proof (induction s arbitrary: i p)
  case Nil
  with assms(1) show ?case by auto
next
  case (Cons c cs)
  then have here: "take (length pat) (c # cs) \<noteq> pat" and rest: "find_from pat (Suc i) cs = None"
    by (simp_all split: if_splits)
  show ?case
  proof (cases p)
    case 0
    with here show ?thesis by simp
  next
    case (Suc p')
    with Cons.IH [OF rest, of p'] show ?thesis by simp
  qed
qed

lemma find_from_Some_D:
  assumes "pat \<noteq> []" and "find_from pat i s = Some r"
  shows "\<exists>p. r = i + p \<and> take (length pat) (drop p s) = pat
           \<and> (\<forall>q<p. take (length pat) (drop q s) \<noteq> pat)"
  using assms(2)
proof (induction s arbitrary: i)
  case Nil
  with assms(1) show ?case by simp
next
  case (Cons c cs)
  show ?case
  proof (cases "take (length pat) (c # cs) = pat")
    case True
    with Cons.prems have "r = i + 0" by simp
    with True show ?thesis by (intro exI [of _ 0]) simp
  next
    case False
    with Cons.prems have "find_from pat (Suc i) cs = Some r" by simp
    from Cons.IH [OF this] obtain p where p: "r = Suc i + p"
        "take (length pat) (drop p cs) = pat" "\<forall>q<p. take (length pat) (drop q cs) \<noteq> pat"
      by blast
    have "\<forall>q<Suc p. take (length pat) (drop q (c # cs)) \<noteq> pat"
    proof (intro allI impI)
      fix q
      assume "q < Suc p"
      then show "take (length pat) (drop q (c # cs)) \<noteq> pat"
        using False p(3) by (cases q) simp_all
    qed
    with p(1,2) show ?thesis by (intro exI [of _ "Suc p"]) simp
  qed
qed

lemma no_arrow_iff: "(\<forall>p. take 2 (drop p line) \<noteq> ''->'') \<longleftrightarrow> find_str line ''->'' = None"
proof
  assume "\<forall>p. take 2 (drop p line) \<noteq> ''->''"
  then show "find_str line ''->'' = None"
    unfolding find_str_def by (intro find_from_None) (simp_all add: numeral_2_eq_2)
next
  assume "find_str line ''->'' = None"
  then have "take (length ''->'') (drop p line) \<noteq> ''->''" for p
    unfolding find_str_def by (intro find_from_None_D) simp_all
  then show "\<forall>p. take 2 (drop p line) \<noteq> ''->''"
    by (simp add: numeral_2_eq_2)
qed

lemma first_arrow_iff:
  "(take 2 (drop p line) = ''->'' \<and> (\<forall>q<p. take 2 (drop q line) \<noteq> ''->''))
   \<longleftrightarrow> find_str line ''->'' = Some p"
proof
  assume "take 2 (drop p line) = ''->'' \<and> (\<forall>q<p. take 2 (drop q line) \<noteq> ''->'')"
  then have "find_from ''->'' 0 line = Some (0 + p)"
    by (intro find_from_first) (simp_all add: numeral_2_eq_2)
  then show "find_str line ''->'' = Some p"
    by (simp add: find_str_def)
next
  assume "find_str line ''->'' = Some p"
  then have "find_from ''->'' 0 line = Some p" by (simp add: find_str_def)
  from find_from_Some_D [OF _ this]
  show "take 2 (drop p line) = ''->'' \<and> (\<forall>q<p. take 2 (drop q line) \<noteq> ''->'')"
    by (simp add: numeral_2_eq_2)
qed

lemmas loader_defs = parse_line_def find_str_def trim_def substr_def
  find_first_not_of_blank_def find_last_not_of_blank_def is_blank_def parse_float_list_def
  decimal_stof_def is_digit_def digits_value_def to_string.simps

text \<open>
  C9, amended. \<^verbatim>\<open>TestDataLoader::load_from_file\<close> treats every line on its own. A line
  that is empty or begins with \<open>#\<close> is skipped. Any other line is parsed in the two-field
  form: if it holds no \<open>->\<close> (as a line in the three-field form does not), or a number in
  it does not convert, the exception is reported with the line number and the line is
  skipped; otherwise the text before the first \<open>->\<close> gives the input and the text after it
  the expected output, and the test case is loaded. In each case the test cases and
  reports of the lines before and after are what they are without the line.
\<close>

theorem load_from_file_line_by_line:
  "(line = [] \<or> hd line = CHR ''#'' \<longrightarrow>
      load_lines stof n (before @ line # after)
        = (fst (load_lines stof n before)
             @ fst (load_lines stof (n + length before + 1) after),
           snd (load_lines stof n before)
             @ snd (load_lines stof (n + length before + 1) after)))
   \<and> (line \<noteq> [] \<and> hd line \<noteq> CHR ''#''
        \<and> parse_line stof line (n + length before + 1) = Inl e \<longrightarrow>
      load_lines stof n (before @ line # after)
        = (fst (load_lines stof n before)
             @ fst (load_lines stof (n + length before + 1) after),
           snd (load_lines stof n before)
             @ (n + length before + 1, e) # snd (load_lines stof (n + length before + 1) after)))
   \<and> (line \<noteq> [] \<and> hd line \<noteq> CHR ''#''
        \<and> parse_line stof line (n + length before + 1) = Inr test_case \<longrightarrow>
      load_lines stof n (before @ line # after)
        = (fst (load_lines stof n before)
             @ test_case # fst (load_lines stof (n + length before + 1) after),
           snd (load_lines stof n before)
             @ snd (load_lines stof (n + length before + 1) after)))
   \<and> ((\<forall>p. take 2 (drop p line) \<noteq> ''->'') \<longrightarrow>
        parse_line stof line k = Inl (runtime_error ''Missing '->' separator''))
   \<and> (take 2 (drop p line) = ''->'' \<and> (\<forall>q<p. take 2 (drop q line) \<noteq> ''->'')
        \<and> parse_float_list stof (trim (take p line)) = Inr xs
        \<and> parse_float_list stof (trim (drop (p + 2) line)) = Inr ys \<longrightarrow>
        parse_line stof line k
          = Inr \<lparr>tc_input = xs, tc_expected_output = ys,
                 tc_description = ''Line '' @ to_string k\<rparr>)"
proof (intro conjI impI)
  assume "line = [] \<or> hd line = CHR ''#''"
  then show "load_lines stof n (before @ line # after)
        = (fst (load_lines stof n before)
             @ fst (load_lines stof (n + length before + 1) after),
           snd (load_lines stof n before)
             @ snd (load_lines stof (n + length before + 1) after))"
    by (auto simp add: load_lines_append Let_def split_beta)
next
  assume "line \<noteq> [] \<and> hd line \<noteq> CHR ''#''
        \<and> parse_line stof line (n + length before + 1) = Inl e"
  then show "load_lines stof n (before @ line # after)
        = (fst (load_lines stof n before)
             @ fst (load_lines stof (n + length before + 1) after),
           snd (load_lines stof n before)
             @ (n + length before + 1, e) # snd (load_lines stof (n + length before + 1) after))"
    by (simp add: load_lines_append Let_def split_beta)
next
  assume "line \<noteq> [] \<and> hd line \<noteq> CHR ''#''
        \<and> parse_line stof line (n + length before + 1) = Inr test_case"
  then show "load_lines stof n (before @ line # after)
        = (fst (load_lines stof n before)
             @ test_case # fst (load_lines stof (n + length before + 1) after),
           snd (load_lines stof n before)
             @ snd (load_lines stof (n + length before + 1) after))"
    by (simp add: load_lines_append Let_def split_beta)
next
  assume "\<forall>p. take 2 (drop p line) \<noteq> ''->''"
  then show "parse_line stof line k = Inl (runtime_error ''Missing '->' separator'')"
    by (rule parse_line_no_arrow)
next
  assume "take 2 (drop p line) = ''->'' \<and> (\<forall>q<p. take 2 (drop q line) \<noteq> ''->'')
        \<and> parse_float_list stof (trim (take p line)) = Inr xs
        \<and> parse_float_list stof (trim (drop (p + 2) line)) = Inr ys"
  then have "take 2 (drop p line) = ''->''" and "\<forall>q<p. take 2 (drop q line) \<noteq> ''->''"
    and "parse_float_list stof (trim (take p line)) = Inr xs"
    and "parse_float_list stof (trim (drop (p + 2) line)) = Inr ys"
    by blast+
  then show "parse_line stof line k
          = Inr \<lparr>tc_input = xs, tc_expected_output = ys,
                 tc_description = ''Line '' @ to_string k\<rparr>"
    by (rule parse_line_two_fields)
qed

text \<open>
  A comment line, a line in the three-field form and a line with a bad number, each
  followed or preceded by the two-field line \<open>1,2->3\<close>, which is loaded every time.
\<close>

theorem load_from_file_line_by_line_witness:
  "load_lines decimal_stof 0 ([] @ ''# c'' # [''1,2->3''])
     = ([\<lparr>tc_input = [1, 2], tc_expected_output = [3], tc_description = ''Line 2''\<rparr>], [])
   \<and> load_lines decimal_stof 0 ([] @ ''1,2 | 3 | 4'' # [''1,2->3''])
     = ([\<lparr>tc_input = [1, 2], tc_expected_output = [3], tc_description = ''Line 2''\<rparr>],
        [(1, runtime_error ''Missing '->' separator'')])
   \<and> load_lines decimal_stof 0 ([''x->1''] @ ''1,2->3'' # [])
     = ([\<lparr>tc_input = [1, 2], tc_expected_output = [3], tc_description = ''Line 2''\<rparr>],
        [(1, invalid_argument ''stof'')])
   \<and> (\<forall>p. take 2 (drop p ''1,2 | 3 | 4'') \<noteq> ''->'')
   \<and> parse_line decimal_stof ''1,2 | 3 | 4'' 1 = Inl (runtime_error ''Missing '->' separator'')
   \<and> parse_line decimal_stof ''1,2->3'' 2
     = Inr \<lparr>tc_input = [1, 2], tc_expected_output = [3], tc_description = ''Line 2''\<rparr>"
proof -
  let ?tc = "\<lparr>tc_input = [1, 2], tc_expected_output = [3], tc_description = ''Line 2''\<rparr>"
  let ?good = "''1,2->3''" and ?three = "''1,2 | 3 | 4''"
  let ?missing = "runtime_error ''Missing '->' separator''"
  have none: "\<forall>p. take 2 (drop p ?three) \<noteq> ''->''"
    unfolding no_arrow_iff by (simp add: find_str_def)
  have first: "take 2 (drop 3 ?good) = ''->'' \<and> (\<forall>q<3. take 2 (drop q ?good) \<noteq> ''->'')"
    unfolding first_arrow_iff by (simp add: find_str_def)
  have fields: "parse_float_list decimal_stof (trim (take 3 ?good)) = Inr [1, 2]"
      "parse_float_list decimal_stof (trim (drop (3 + 2) ?good)) = Inr [3]"
    by (simp_all add: loader_defs)
  have line2: "''Line '' @ to_string 2 = ''Line 2''"
    by (simp add: to_string.simps)
  have three: "parse_line decimal_stof ?three 1 = Inl ?missing"
    using load_from_file_line_by_line [where line = ?three and stof = decimal_stof and k = 1]
      none by blast
  have good: "parse_line decimal_stof ?good 2 = Inr ?tc"
    using load_from_file_line_by_line
            [where line = ?good and stof = decimal_stof and k = 2 and p = 3
               and xs = "[1, 2]" and ys = "[3]"]
      first fields unfolding line2 by blast
  have k1: "0 + length ([] :: string list) + 1 = (1::nat)"
    and k2: "0 + length [''x->1''] + 1 = (2::nat)"
    by simp_all
  have empty: "load_lines decimal_stof 0 [] = ([], [])" "load_lines decimal_stof 2 [] = ([], [])"
    by simp_all
  have rest: "load_lines decimal_stof 1 [?good] = ([?tc], [])"
    using good by (simp add: numeral_2_eq_2)
  have bad: "load_lines decimal_stof 0 [''x->1''] = ([], [(1, invalid_argument ''stof'')])"
    by (simp add: loader_defs)
  have "hd ''# c'' = CHR ''#''" by simp
  with load_from_file_line_by_line
         [where line = "''# c''" and stof = decimal_stof and n = 0 and before = "[]"
            and after = "[?good]", unfolded k1 empty rest]
  have c1: "load_lines decimal_stof 0 ([] @ ''# c'' # [?good]) = ([] @ [?tc], [] @ [])"
    by (simp only: fst_conv snd_conv) blast
  have "?three \<noteq> [] \<and> hd ?three \<noteq> CHR ''#''" by simp
  with three load_from_file_line_by_line
         [where line = ?three and stof = decimal_stof and n = 0 and before = "[]"
            and after = "[?good]" and e = ?missing, unfolded k1 empty rest]
  have c2: "load_lines decimal_stof 0 ([] @ ?three # [?good])
              = ([] @ [?tc], [] @ (1, ?missing) # [])"
    by (simp only: fst_conv snd_conv) blast
  have "?good \<noteq> [] \<and> hd ?good \<noteq> CHR ''#''" by simp
  with good load_from_file_line_by_line
         [where line = ?good and stof = decimal_stof and n = 0 and before = "[''x->1'']"
            and after = "[]" and test_case = ?tc, unfolded k2 empty bad]
  have c3: "load_lines decimal_stof 0 ([''x->1''] @ ?good # [])
              = ([] @ ?tc # [], [(1, invalid_argument ''stof'')] @ [])"
    by (simp only: fst_conv snd_conv) blast
  from c1 c2 c3 none three good show ?thesis
    by (simp only: append_Nil append_Nil2) blast
qed

text \<open>
  C9 as stated has the loader accept the three-field form. A three-field line is not
  loaded by \<^verbatim>\<open>TestDataLoader::load_from_file\<close>: it is reported as malformed.
\<close>

theorem load_from_file_three_field_counterexample:
  "load_from_file decimal_stof (Some [''1.0,2.0,-0.5 | 0.5,0.3,0.2,0.1 | 1.1''])
   = ([], [(1, runtime_error ''Missing '->' separator'')])"
  by (simp add: load_from_file_def parse_line_def find_str_def)

section \<open>TwoLayerMLP: a shape whose products wrap\<close>




section \<open>binary32: what rounding keeps\<close>

lemma round_to_even_le: "r \<le> of_int m \<Longrightarrow> round_to_even r \<le> m"
proof -
  assume a: "r \<le> of_int m"
  then have f: "\<lfloor>r\<rfloor> \<le> m" by (simp add: floor_le_iff)
  show ?thesis
  proof (cases "\<lfloor>r\<rfloor> = m")
    case True
    then have "r = of_int m" using a by (metis of_int_floor_le order_antisym)
    then show ?thesis by (simp add: round_to_even_def)
  next
    case False
    with f have "\<lfloor>r\<rfloor> + 1 \<le> m" by simp
    then show ?thesis by (simp add: round_to_even_def Let_def)
  qed
qed

lemma round_to_even_ge: "of_int m \<le> r \<Longrightarrow> m \<le> round_to_even r"
proof -
  assume "of_int m \<le> r"
  then have "m \<le> \<lfloor>r\<rfloor>" by (simp add: le_floor_iff)
  then show ?thesis by (simp add: round_to_even_def Let_def)
qed

lemma round_to_even_of_int [simp]: "round_to_even (of_int m) = m"
  by (simp add: round_to_even_def)

lemma binary32_quantum_pos [simp]: "0 < binary32_quantum x"
  by (simp add: binary32_quantum_def)

lemma round_binary32_nonneg: "0 \<le> x \<Longrightarrow> 0 \<le> round_binary32 x"
proof -
  assume "0 \<le> x"
  then have "of_int 0 \<le> x / binary32_quantum x"
    using binary32_quantum_pos [of x] by (simp add: divide_nonneg_pos)
  then have "0 \<le> round_to_even (x / binary32_quantum x)" by (rule round_to_even_ge)
  then have "0 \<le> real_of_int (round_to_even (x / binary32_quantum x))" by simp
  then have "0 \<le> real_of_int (round_to_even (x / binary32_quantum x)) * binary32_quantum x"
    by (rule mult_nonneg_nonneg) (simp add: less_imp_le)
  then show ?thesis by (simp only: round_binary32_def split: if_split) simp
qed

lemma two_powi_powr: "(2::real) powi k = 2 powr of_int k"
  by (simp add: powr_real_of_int')

lemma log2_powi [simp]: "log 2 (2 powi k) = of_int k"
  by (simp add: two_powi_powr)

lemma floor_log2_eq:
  "0 < x \<Longrightarrow> (\<lfloor>log 2 x\<rfloor> = k) = (2 powi k \<le> x \<and> x < 2 powi (k + 1))"
  by (simp add: floor_log_eq_powr_iff two_powi_powr)

lemma floor_log2_le:
  assumes "0 < x" and "x \<le> 2 powi j"
  shows "\<lfloor>log 2 x\<rfloor> \<le> j"
proof -
  have "log 2 x \<le> log 2 (2 powi j)"
    using assms log_le_cancel_iff [of 2 x "2 powi j"] by simp
  then show ?thesis by (simp add: floor_le_iff)
qed

lemma floor_log2_ge:
  assumes "2 powi j \<le> x"
  shows "j \<le> \<lfloor>log 2 x\<rfloor>"
proof -
  have "0 < (2::real) powi j" by simp
  then have "0 < x" using assms by linarith
  then have "log 2 (2 powi j) \<le> log 2 x"
    using assms log_le_cancel_iff [of 2 "2 powi j" x] by simp
  then show ?thesis by (simp add: le_floor_iff)
qed

text \<open>The significand of a value that is an integer multiple of its quantum is kept.\<close>

lemma round_binary32_exact:
  assumes "x = of_int m * 2 powi (e - 23)" and "binary32_exponent x = e"
  shows "round_binary32 x = x"
proof -
  have q: "binary32_quantum x = 2 powi (e - 23)"
    by (simp add: binary32_quantum_def assms(2))
  have d: "x / 2 powi (e - 23) = of_int m"
    by (subst assms(1)) simp
  show ?thesis
  proof (cases "x = 0")
    case True
    then show ?thesis by (simp add: round_binary32_def)
  next
    case False
    then have "round_binary32 x
               = of_int (round_to_even (x / binary32_quantum x)) * binary32_quantum x"
      by (simp add: round_binary32_def)
    also have "\<dots> = of_int m * 2 powi (e - 23)"
      by (simp only: q d round_to_even_of_int)
    finally show ?thesis using assms(1) by simp
  qed
qed

lemma binary32_exponent_eq:
  assumes "2 powi e \<le> \<bar>x\<bar>" and "\<bar>x\<bar> < 2 powi (e + 1)" and "- 126 \<le> e"
  shows "binary32_exponent x = e"
proof -
  have "0 < (2::real) powi e" by simp
  then have "0 < \<bar>x\<bar>" using assms(1) by linarith
  then have "\<lfloor>log 2 \<bar>x\<bar>\<rfloor> = e" using assms by (simp add: floor_log2_eq)
  then show ?thesis using assms(3) by (simp add: binary32_exponent_def)
qed

lemma round_binary32_le_powi:
  assumes "0 \<le> x" and "x \<le> 2 powi j" and "- 149 \<le> j"
  shows "round_binary32 x \<le> 2 powi j"
proof (cases "x = 0")
  case True
  then show ?thesis by (simp add: round_binary32_def)
next
  case False
  then have pos: "0 < x" using assms(1) by simp
  define e where "e = binary32_exponent x"
  have q: "binary32_quantum x = 2 powi (e - 23)"
    by (simp add: binary32_quantum_def e_def)
  have "\<lfloor>log 2 \<bar>x\<bar>\<rfloor> \<le> j" using pos assms(2) by (simp add: floor_log2_le)
  then have ej: "0 \<le> j - (e - 23)"
    using assms(3) by (simp add: e_def binary32_exponent_def)
  have pj: "(2::real) powi j = of_int (2 ^ nat (j - (e - 23))) * 2 powi (e - 23)"
  proof -
    have a: "(2::real) powi int (nat (j - (e - 23))) = of_int (2 ^ nat (j - (e - 23)))"
      by (simp only: power_int_of_nat of_int_power of_int_numeral)
    have "(2::real) powi j = 2 powi (int (nat (j - (e - 23))) + (e - 23))"
      using ej by simp
    also have "\<dots> = 2 powi int (nat (j - (e - 23))) * 2 powi (e - 23)"
      by (rule power_int_add) simp
    finally show ?thesis by (simp only: a)
  qed
  have "x / 2 powi (e - 23) \<le> of_int (2 ^ nat (j - (e - 23)))"
    using assms(2) unfolding pj by (simp add: pos_divide_le_eq)
  then have "round_to_even (x / 2 powi (e - 23)) \<le> 2 ^ nat (j - (e - 23))"
    by (rule round_to_even_le)
  then have "real_of_int (round_to_even (x / 2 powi (e - 23))) \<le> of_int (2 ^ nat (j - (e - 23)))"
    by (simp only: of_int_le_iff)
  then have "of_int (round_to_even (x / 2 powi (e - 23))) * 2 powi (e - 23)
             \<le> of_int (2 ^ nat (j - (e - 23))) * (2::real) powi (e - 23)"
    by (rule mult_right_mono) simp
  then show ?thesis
    using False unfolding pj by (simp add: round_binary32_def q)
qed

lemma round_binary32_ge_1:
  assumes "1 \<le> x"
  shows "1 \<le> round_binary32 x"
proof -
  define e where "e = \<lfloor>log 2 \<bar>x\<bar>\<rfloor>"
  have x0: "x \<noteq> 0" "\<bar>x\<bar> = x" "0 < x" using assms by simp_all
  have "(2::real) powi 0 \<le> x" using assms by simp
  then have e0: "0 \<le> e" unfolding e_def x0 by (rule floor_log2_ge)
  then have ex: "binary32_exponent x = e" by (simp add: binary32_exponent_def e_def)
  have q: "binary32_quantum x = 2 powi (e - 23)"
    by (simp add: binary32_quantum_def ex)
  have lo: "2 powi e \<le> x"
    using floor_log2_eq [of x e] x0 by (simp add: e_def)
  have pe: "(2::real) powi e = of_int (2 ^ 23) * 2 powi (e - 23)"
  proof -
    have "(2::real) powi e = 2 powi (23 + (e - 23))" by simp
    also have "\<dots> = 2 powi 23 * 2 powi (e - 23)"
      by (rule power_int_add) simp
    finally show ?thesis by simp
  qed
  have "of_int (2 ^ 23) \<le> x / 2 powi (e - 23)"
    using lo unfolding pe by (simp add: pos_le_divide_eq)
  then have "2 ^ 23 \<le> round_to_even (x / 2 powi (e - 23))"
    by (rule round_to_even_ge)
  then have "real_of_int (2 ^ 23) \<le> of_int (round_to_even (x / 2 powi (e - 23)))"
    by (simp only: of_int_le_iff)
  then have "of_int (2 ^ 23) * (2::real) powi (e - 23)
             \<le> of_int (round_to_even (x / 2 powi (e - 23))) * 2 powi (e - 23)"
    by (rule mult_right_mono) simp
  then have "2 powi e \<le> round_binary32 x"
    using x0 unfolding pe by (simp add: round_binary32_def q)
  moreover have "(2::real) powi 0 \<le> 2 powi e"
    using e0 by (intro power_int_increasing) simp_all
  ultimately show ?thesis by simp
qed

lemma round_binary32_1 [simp]: "round_binary32 1 = 1"
proof (rule round_binary32_exact [where m = "2 ^ 23" and e = 0])
  show "binary32_exponent 1 = 0"
    by (rule binary32_exponent_eq) simp_all
  show "(1::real) = of_int (2 ^ 23) * 2 powi (0 - 23)"
    by (simp add: power_int_minus)
qed

lemma round_binary32_17 [simp]: "round_binary32 17 = 17"
proof (rule round_binary32_exact [where m = "17 * 2 ^ 19" and e = 4])
  show "binary32_exponent 17 = 4"
    by (rule binary32_exponent_eq) simp_all
  show "(17::real) = of_int (17 * 2 ^ 19) * 2 powi (4 - 23)"
    by (simp add: power_int_minus)
qed

lemma round_binary32_near_1:
  assumes "1 \<le> x" and "x \<le> 1 + 1 / 2 ^ 24"
  shows "round_binary32 x = 1"
proof -
  have "binary32_exponent x = 0"
    by (rule binary32_exponent_eq) (use assms in simp_all)
  then have q: "binary32_quantum x = 2 powi (- 23)"
    by (simp add: binary32_quantum_def)
  have q': "(2::real) powi (- 23) = 1 / 2 ^ 23" by (simp add: power_int_minus_divide)
  define r where "r = x * 2 ^ 23"
  have r: "x / (1 / 2 ^ 23) = r" by (simp add: r_def)
  have lo: "of_int (2 ^ 23) \<le> r" using assms(1) by (simp add: r_def)
  have hi: "r \<le> of_int (2 ^ 23) + 1 / 2" using assms(2) by (simp add: r_def field_simps)
  have fl: "\<lfloor>r\<rfloor> = 2 ^ 23"
    using lo hi by (simp add: floor_eq_iff)
  have re: "round_to_even r = 2 ^ 23"
    using hi by (simp add: round_to_even_def fl)
  have "round_binary32 x
        = of_int (round_to_even (x / binary32_quantum x)) * binary32_quantum x"
    using assms(1) by (simp add: round_binary32_def)
  also have "x / binary32_quantum x = r" by (simp add: q q' r_def)
  also have "round_to_even r = 2 ^ 23" by (fact re)
  finally show ?thesis by (simp add: q q')
qed

lemma exp_17_ge: "2 ^ 24 \<le> exp (17::real)"
proof -
  have "1 + 1 / 4 + (1 / 4)\<^sup>2 / 2 \<le> exp (1 / 4 :: real)"
    by (rule exp_lower_Taylor_quadratic) simp
  then have "41 / 32 \<le> exp (1 / 4 :: real)" by (simp add: power2_eq_square)
  then have "(41 / 32) ^ 68 \<le> exp (1 / 4 :: real) ^ 68"
    by (rule power_mono) simp
  also have "exp (1 / 4 :: real) ^ 68 = exp (of_nat 68 * (1 / 4))"
    by (rule exp_of_nat_mult [symmetric])
  also have "\<dots> = exp 17" by simp
  finally have "(41 / 32) ^ 68 \<le> exp (17::real)" .
  moreover have "(2::real) ^ 24 \<le> (41 / 32) ^ 68" by (simp add: power_divide)
  ultimately show ?thesis by linarith
qed

lemma exp_minus_17_le: "exp (- 17 :: real) \<le> 1 / 2 ^ 24"
proof -
  have "exp (- 17 :: real) = 1 / exp 17" by (simp add: exp_minus inverse_eq_divide)
  also have "\<dots> \<le> 1 / 2 ^ 24"
    using exp_17_ge by (intro divide_left_mono) simp_all
  finally show ?thesis .
qed

section \<open>Claims about the range of the outputs in binary32\<close>

lemma to_binary32_0 [simp]: "to_binary32 0 = Finite 0"
  by (simp add: to_binary32_def round_binary32_def)

lemma to_binary32_1 [simp]: "to_binary32 1 = Finite 1"
  by (simp add: to_binary32_def)

lemma to_binary32_17 [simp]: "to_binary32 17 = Finite 17"
  by (simp add: to_binary32_def)

lemma to_binary32_pos_cases:
  assumes "0 \<le> x"
  obtains "to_binary32 x = PlusInf" | q where "to_binary32 x = Finite q" and "0 \<le> q"
proof (cases "2 ^ 128 - 2 ^ 103 \<le> \<bar>x\<bar>")
  case True
  then have "to_binary32 x = PlusInf" using assms by (simp add: to_binary32_def)
  then show ?thesis by (rule that(1))
next
  case False
  then have "to_binary32 x = Finite (round_binary32 x)" by (simp add: to_binary32_def)
  moreover have "0 \<le> round_binary32 x" using assms by (rule round_binary32_nonneg)
  ultimately show ?thesis by (rule that(2))
qed

lemma to_binary32_ge_1_cases:
  assumes "1 \<le> x"
  obtains "to_binary32 x = PlusInf" | q where "to_binary32 x = Finite q" and "1 \<le> q"
proof (cases "2 ^ 128 - 2 ^ 103 \<le> \<bar>x\<bar>")
  case True
  then have "to_binary32 x = PlusInf" using assms by (simp add: to_binary32_def)
  then show ?thesis by (rule that(1))
next
  case False
  then have "to_binary32 x = Finite (round_binary32 x)" by (simp add: to_binary32_def)
  moreover have "1 \<le> round_binary32 x" using assms by (rule round_binary32_ge_1)
  ultimately show ?thesis by (rule that(2))
qed

lemma to_binary32_unit:
  assumes "0 \<le> x" and "x \<le> 1"
  shows "\<exists>q. to_binary32 x = Finite q \<and> 0 \<le> q \<and> q \<le> 1"
proof -
  have "round_binary32 x \<le> 2 powi 0"
    by (rule round_binary32_le_powi) (use assms in simp_all)
  then show ?thesis
    using assms round_binary32_nonneg [of x] by (simp add: to_binary32_def)
qed

text \<open>The sigmoid expression of \<^verbatim>\<open>forward\<close> at a pre-activation that is not NaN.\<close>

lemma sigmoid_binary32_range:
  assumes "z \<noteq> NaN"
  shows "\<exists>q. fdiv (Finite 1) (fadd (Finite 1) (fexp (fneg z))) = Finite q \<and> 0 \<le> q \<and> q \<le> 1"
proof (cases z)
  case (Finite r)
  have "0 \<le> exp (- r)" by simp
  then show ?thesis
  proof (cases rule: to_binary32_pos_cases)
    case 1
    then show ?thesis by (simp add: Finite)
  next
    case (2 e)
    then have "1 \<le> 1 + e" by simp
    then show ?thesis
    proof (cases rule: to_binary32_ge_1_cases)
      case 1
      then show ?thesis using 2 by (simp add: Finite)
    next
      case (2 d)
      then have "0 \<le> 1 / d" "1 / d \<le> 1" "d \<noteq> 0" by simp_all
      then show ?thesis
        using to_binary32_unit [of "1 / d"] 2 \<open>to_binary32 (exp (- r)) = Finite e\<close>
        by (simp add: Finite)
    qed
  qed
next
  case PlusInf
  then show ?thesis by simp
next
  case MinusInf
  then show ?thesis by simp
next
  case NaN
  then show ?thesis using assms by simp
qed

lemma LogisticRegression_binary32_linear_output_returns:
  assumes "LogisticRegression_binary32_wf m" and "length x = log32_input_size m"
  shows "\<exists>z. LogisticRegression_binary32_linear_output m x = Inr z"
proof -
  have "\<exists>t. for_loop 0 (log32_input_size m)
       (\<lambda>i linear_output. rbind (vec_get (log32_weights m) i) (\<lambda>w.
                            rbind (vec_get x i) (\<lambda>xi. Inr (fadd linear_output (fmul w xi)))))
       (log32_bias m) = Inr t \<and> True"
    by (rule for_loop_rule [where P = "\<lambda>j t. True"])
       (use assms in \<open>simp_all add: LogisticRegression_binary32_wf_def\<close>)
  then show ?thesis by (simp add: LogisticRegression_binary32_linear_output_def)
qed

text \<open>
  C5, amended. For every \<open>LogisticRegression\<close> and every input of length \<open>input_size\<close>,
  \<open>forward\<close> computes in binary32 a linear pre-activation \<open>z\<close> and returns one value; unless
  \<open>z\<close> is NaN, that value is a finite float in the closed interval from 0 to 1.
\<close>

theorem LogisticRegression_binary32_forward_range:
  assumes "LogisticRegression_binary32_wf m" and "length x = log32_input_size m"
  shows "\<exists>z. LogisticRegression_binary32_linear_output m x = Inr z
           \<and> (z \<noteq> NaN \<longrightarrow>
                (\<exists>q. LogisticRegression_binary32_forward m x = Inr [Finite q]
                     \<and> 0 \<le> q \<and> q \<le> 1))"
proof -
  obtain z where z: "LogisticRegression_binary32_linear_output m x = Inr z"
    using LogisticRegression_binary32_linear_output_returns [OF assms] by blast
  have "\<exists>q. LogisticRegression_binary32_forward m x = Inr [Finite q] \<and> 0 \<le> q \<and> q \<le> 1"
    if "z \<noteq> NaN"
    using sigmoid_binary32_range [OF that] assms(2)
    by (simp add: LogisticRegression_binary32_forward_def z)
  then show ?thesis using z by blast
qed

text \<open>
  The object that \<^verbatim>\<open>set_parameters({1, 0, 0})\<close> leaves of a \<open>LogisticRegression\<close> with two
  inputs, at the input \<^verbatim>\<open>{17, 0}\<close>: the pre-activation is 17, \<open>exp (- 17)\<close> is below half
  the distance from 1 to the next float, and the sum \<^verbatim>\<open>1.0f + std::exp(-17.0f)\<close> rounds
  to 1.
\<close>

lemma LogisticRegression_binary32_linear_output_example:
  "LogisticRegression_binary32_linear_output
     \<lparr>log32_weights = [Finite 1, Finite 0], log32_bias = Finite 0, log32_input_size = 2\<rparr>
     [Finite 17, Finite 0] = Inr (Finite 17)"
proof -
  have "for_loop 0 2
       (\<lambda>i linear_output. rbind (vec_get [Finite 1, Finite 0] i) (\<lambda>w.
          rbind (vec_get [Finite 17, Finite 0] i) (\<lambda>x. Inr (fadd linear_output (fmul w x)))))
       (Finite 0) = Inr (Finite 17)"
    by (simp add: for_loop.simps [of 0] for_loop.simps [of "Suc 0"])
  then show ?thesis by (simp add: LogisticRegression_binary32_linear_output_def)
qed

lemma fexp_minus_17:
  "\<exists>e. fexp (Finite (- 17)) = Finite e \<and> 0 \<le> e \<and> e \<le> 1 / 2 ^ 24"
proof -
  have le: "exp (- 17 :: real) \<le> 2 powi (- 24)"
    using exp_minus_17_le by (simp add: power_int_minus_divide)
  have "round_binary32 (exp (- 17)) \<le> 2 powi (- 24)"
    by (rule round_binary32_le_powi) (use le in simp_all)
  moreover have "0 \<le> round_binary32 (exp (- 17))"
    by (rule round_binary32_nonneg) simp
  moreover have "\<bar>exp (- 17 :: real)\<bar> < 2 ^ 128 - 2 ^ 103"
    using exp_minus_17_le by simp
  ultimately show ?thesis
    by (simp add: to_binary32_def power_int_minus_divide)
qed

lemma fadd_1_small:
  assumes "0 \<le> e" and "e \<le> 1 / 2 ^ 24"
  shows "fadd (Finite 1) (Finite e) = Finite 1"
proof -
  have "round_binary32 (1 + e) = 1"
    by (rule round_binary32_near_1) (use assms in simp_all)
  moreover have "\<bar>1 + e\<bar> < 2 ^ 128 - 2 ^ 103"
    using assms by simp
  ultimately show ?thesis by (simp add: to_binary32_def)
qed

lemma sigmoid_binary32_17:
  "fdiv (Finite 1) (fadd (Finite 1) (fexp (fneg (Finite 17)))) = Finite 1"
proof -
  obtain e where e: "fexp (Finite (- 17)) = Finite e" and "0 \<le> e" and "e \<le> 1 / 2 ^ 24"
    using fexp_minus_17 by blast
  then have "fadd (Finite 1) (Finite e) = Finite 1" by (simp only: fadd_1_small)
  then have "fadd (Finite 1) (fexp (fneg (Finite 17))) = Finite 1"
    by (simp only: fneg.simps e)
  then have "fdiv (Finite 1) (fadd (Finite 1) (fexp (fneg (Finite 17))))
             = fdiv (Finite 1) (Finite 1)"
    by (simp only:)
  then show ?thesis by simp
qed

theorem LogisticRegression_binary32_forward_range_witness:
  "\<exists>q. LogisticRegression_binary32_forward
          \<lparr>log32_weights = [Finite 1, Finite 0], log32_bias = Finite 0, log32_input_size = 2\<rparr>
          [Finite 17, Finite 0] = Inr [Finite q] \<and> 0 \<le> q \<and> q \<le> 1"
  using LogisticRegression_binary32_forward_range
    [of "\<lparr>log32_weights = [Finite 1, Finite 0], log32_bias = Finite 0, log32_input_size = 2\<rparr>"
        "[Finite 17, Finite 0]"]
  by (simp add: LogisticRegression_binary32_wf_def
      LogisticRegression_binary32_linear_output_example)

text \<open>
  C5 as stated fails: at this finite parameter vector and finite input the value returned
  is exactly 1, which is not strictly inside the interval.
\<close>

theorem LogisticRegression_binary32_saturates_counterexample:
  "LogisticRegression_binary32_forward
     \<lparr>log32_weights = [Finite 1, Finite 0], log32_bias = Finite 0, log32_input_size = 2\<rparr>
     [Finite 17, Finite 0] = Inr [Finite 1]"
  by (simp only: LogisticRegression_binary32_forward_def
      LogisticRegression_binary32_linear_output_example rbind_Inr sigmoid_binary32_17) simp

text \<open>
  C4. A \<open>MultiClassClassifier\<close> with one input and two classes, weights \<open>2 ^ 127\<close> and
  \<open>- (2 ^ 127)\<close>, biases 0, at the input \<open>2 ^ 127\<close> (finite floats): the products overflow,
  the logits are \<open>+inf\<close> and \<open>-inf\<close>, the maximum is \<open>+inf\<close>, and \<open>inf - inf\<close> is NaN.
\<close>

theorem MultiClassClassifier_binary32_forward_nan:
  "MultiClassClassifier_binary32_forward
     \<lparr>mc32_weights = [[Finite (2 ^ 127)], [Finite (- (2 ^ 127))]],
      mc32_biases = [Finite 0, Finite 0], mc32_input_size = 1, mc32_num_classes = 2\<rparr>
     [Finite (2 ^ 127)] = Inr [NaN, NaN]"
proof -
  have logits: "MultiClassClassifier_binary32_logits
     \<lparr>mc32_weights = [[Finite (2 ^ 127)], [Finite (- (2 ^ 127))]],
      mc32_biases = [Finite 0, Finite 0], mc32_input_size = 1, mc32_num_classes = 2\<rparr>
     [Finite (2 ^ 127)] = Inr [PlusInf, MinusInf]"
    by (simp add: MultiClassClassifier_binary32_logits_def numeral_2_eq_2
        for_loop.simps [of 0] for_loop.simps [of "Suc 0"] to_binary32_def)
  have softmax: "MultiClassClassifier_binary32_softmax 2 [PlusInf, MinusInf] = Inr [NaN, NaN]"
    by (simp add: MultiClassClassifier_binary32_softmax_def max_element_binary32_def
        numeral_2_eq_2 fsub_def for_loop.simps [of 0] for_loop.simps [of "Suc 0"])
  show ?thesis
    unfolding MultiClassClassifier_binary32_forward_def logits by (simp add: softmax)
qed

text \<open>
  The lower end is reached as well: at the input \<^verbatim>\<open>{-100, 0}\<close> the exponential overflows
  to \<open>+inf\<close> and the quotient is 0.
\<close>

lemma exp_100_ge: "2 ^ 128 \<le> exp (100::real)"
proof -
  have "1 + 1 + 1\<^sup>2 / 2 \<le> exp (1::real)"
    by (rule exp_lower_Taylor_quadratic) simp
  then have "5 / 2 \<le> exp (1::real)" by simp
  then have "(5 / 2) ^ 100 \<le> exp (1::real) ^ 100"
    by (rule power_mono) simp
  also have "exp (1::real) ^ 100 = exp (of_nat 100 * 1)"
    by (rule exp_of_nat_mult [symmetric])
  also have "\<dots> = exp 100" by simp
  finally have "(5 / 2) ^ 100 \<le> exp (100::real)" .
  moreover have "(2::real) ^ 128 \<le> (5 / 2) ^ 100" by (simp add: power_divide)
  ultimately show ?thesis by linarith
qed

lemma round_binary32_minus_100 [simp]: "round_binary32 (- 100) = - 100"
proof (rule round_binary32_exact [where m = "- 100 * 2 ^ 17" and e = 6])
  show "binary32_exponent (- 100) = 6"
    by (rule binary32_exponent_eq) simp_all
  show "(- 100::real) = of_int (- 100 * 2 ^ 17) * 2 powi (6 - 23)"
    by (simp add: power_int_minus)
qed

lemma LogisticRegression_binary32_forward_zero_example:
  "LogisticRegression_binary32_forward
     \<lparr>log32_weights = [Finite 1, Finite 0], log32_bias = Finite 0, log32_input_size = 2\<rparr>
     [Finite (- 100), Finite 0] = Inr [Finite 0]"
proof -
  have t: "to_binary32 (- 100) = Finite (- 100)"
    by (simp add: to_binary32_def)
  have "for_loop 0 2
       (\<lambda>i linear_output. rbind (vec_get [Finite 1, Finite 0] i) (\<lambda>w.
          rbind (vec_get [Finite (- 100), Finite 0] i)
            (\<lambda>x. Inr (fadd linear_output (fmul w x)))))
       (Finite 0) = Inr (Finite (- 100))"
    by (simp add: for_loop.simps [of 0] for_loop.simps [of "Suc 0"] t)
  then have z: "LogisticRegression_binary32_linear_output
     \<lparr>log32_weights = [Finite 1, Finite 0], log32_bias = Finite 0, log32_input_size = 2\<rparr>
     [Finite (- 100), Finite 0] = Inr (Finite (- 100))"
    by (simp add: LogisticRegression_binary32_linear_output_def)
  have "to_binary32 (exp 100) = PlusInf"
    using exp_100_ge by (simp add: to_binary32_def)
  then have "fdiv (Finite 1) (fadd (Finite 1) (fexp (fneg (Finite (- 100))))) = Finite 0"
    by simp
  then show ?thesis
    by (simp only: LogisticRegression_binary32_forward_def z rbind_Inr) simp
qed

end
